theory Spec2Isabelle
  imports Main
begin

section \<open>Strings\<close>

text \<open>
  A Go string is a sequence of bytes; \<^typ>\<open>string\<close> is a list of 8-bit characters.
  A Go \<^verbatim>\<open>error\<close> is observed by the server only through \<^verbatim>\<open>err == nil\<close> and
  \<^verbatim>\<open>err.Error()\<close>, so an error value is its message.
\<close>

type_synonym error = string

definition HasPrefix :: "string \<Rightarrow> string \<Rightarrow> bool" where
  "HasPrefix s p = (take (length p) s = p)"

definition HasSuffix :: "string \<Rightarrow> string \<Rightarrow> bool" where
  "HasSuffix s suf = (length suf \<le> length s \<and> drop (length s - length suf) s = suf)"

definition TrimPrefix :: "string \<Rightarrow> string \<Rightarrow> string" where
  "TrimPrefix s p = (if HasPrefix s p then drop (length p) s else s)"

definition TrimSuffix :: "string \<Rightarrow> string \<Rightarrow> string" where
  "TrimSuffix s suf = (if HasSuffix s suf then take (length s - length suf) s else s)"

text \<open>
  \<^verbatim>\<open>strings.ToLower\<close>: a string of bytes below \<^verbatim>\<open>utf8.RuneSelf\<close> (0x80) has each of
  \<^verbatim>\<open>'A'..'Z'\<close> moved by \<^verbatim>\<open>'a' - 'A'\<close>; any other string goes through
  \<^verbatim>\<open>strings.Map(unicode.ToLower, s)\<close>, which depends on the Unicode tables of the Go
  library and is the parameter \<open>U\<close>.
\<close>

definition isASCII :: "string \<Rightarrow> bool" where
  "isASCII s = list_all (\<lambda>c. (of_char c :: nat) < 128) s"

definition lowerByte :: "char \<Rightarrow> char" where
  "lowerByte c =
     (if (of_char (CHR ''A'') :: nat) \<le> of_char c \<and> (of_char c :: nat) \<le> of_char (CHR ''Z'')
      then char_of ((of_char c :: nat) + 32) else c)"

definition ToLower :: "(string \<Rightarrow> string) \<Rightarrow> string \<Rightarrow> string" where
  "ToLower U s = (if isASCII s then map lowerByte s else U s)"

section \<open>HTTP requests and responses\<close>

datatype json =
    JString string
  | JInt int
  | JArray "json list"
  | JObject "(string \<times> json) list"

fun field :: "string \<Rightarrow> json \<Rightarrow> json option" where
  "field k (JObject kvs) = map_of kvs k"
| "field k _ = None"

datatype body = NoBody | Text string | Json json

record Response =
  StatusCode :: nat
  Header :: "(string \<times> string) list"
  Body :: body

text \<open>
  The fields of \<^verbatim>\<open>*http.Request\<close> that the handlers read. \<open>BasicAuth\<close> is the result of
  \<^verbatim>\<open>r.BasicAuth()\<close> (\<open>None\<close> when \<^verbatim>\<open>ok\<close> is false). \<open>Decode\<close> is the result of
  \<^verbatim>\<open>json.NewDecoder(r.Body).Decode(&body)\<close> into \<^verbatim>\<open>struct{ ResetType string }\<close>: the
  decoder's error, or the value of the \<^verbatim>\<open>ResetType\<close> field.
\<close>

record Request =
  Method :: string
  Path :: string
  BasicAuth :: "(string \<times> string) option"
  Decode :: "error + string"

definition HeaderSet :: "string \<Rightarrow> string \<Rightarrow> (string \<times> string) list \<Rightarrow> (string \<times> string) list" where
  "HeaderSet k v h = filter (\<lambda>kv. fst kv \<noteq> k) h @ [(k, v)]"

text \<open>\<^verbatim>\<open>http.Error\<close> on a response whose headers so far are \<open>h\<close>.\<close>

definition httpError :: "(string \<times> string) list \<Rightarrow> string \<Rightarrow> nat \<Rightarrow> Response" where
  "httpError h msg code =
     \<lparr>StatusCode = code,
      Header = HeaderSet ''X-Content-Type-Options'' ''nosniff''
                 (HeaderSet ''Content-Type'' ''text/plain; charset=utf-8'' h),
      Body = Text (msg @ [CHR 0x0A])\<rparr>"

definition NotFound :: Response where
  "NotFound = httpError [] ''404 page not found'' 404"

definition writeJSON :: "nat \<Rightarrow> json \<Rightarrow> Response" where
  "writeJSON code v =
     \<lparr>StatusCode = code, Header = HeaderSet ''Content-Type'' ''application/json'' [], Body = Json v\<rparr>"

section \<open>Backends\<close>

text \<open>
  A backend acts on the world outside the server (\<open>'w\<close>: processes, the network, the log).
  \<^verbatim>\<open>PowerOn\<close> and \<^verbatim>\<open>PowerOff\<close> are required; the interfaces \<^verbatim>\<open>PowerStateProvider\<close>,
  \<^verbatim>\<open>NameProvider\<close> and \<^verbatim>\<open>HealthChecker\<close> are optional, and the type assertion
  \<^verbatim>\<open>be.(backend.X)\<close> succeeds exactly when the field is \<open>Some\<close>.
\<close>

record 'w Backend =
  PowerOn :: "'w \<Rightarrow> error option \<times> 'w"
  PowerOff :: "'w \<Rightarrow> error option \<times> 'w"
  CurrentState :: "('w \<Rightarrow> (error + bool) \<times> 'w) option"
  DisplayName :: "('w \<Rightarrow> (error + string) \<times> 'w) option"
  Ping :: "('w \<Rightarrow> error option \<times> 'w) option"

subsection \<open>The world of the three variants\<close>

text \<open>
  What the variants do to the world is kept in \<open>history\<close>. How the world answers is given
  by \<open>sh\<close> (the result of \<^verbatim>\<open>cmd.Run()\<close> for \<^verbatim>\<open>sh -lc cmd\<close>), \<open>build\<close> (the error of
  \<^verbatim>\<open>http.NewRequestWithContext\<close> for a method and a URL) and \<open>exchange\<close> (the result of
  \<^verbatim>\<open>client.Do\<close>); the answers may depend on everything done before.
\<close>

datatype attr = AString string | AOther

record StateBody =
  State :: string
  Attributes :: "string \<rightharpoonup> attr"

text \<open>
  \<open>Status\<close> is \<^verbatim>\<open>resp.StatusCode\<close>; \<open>Decoded\<close> is the result of decoding the response
  body into the \<^verbatim>\<open>state\<close> and \<^verbatim>\<open>attributes\<close> members that \<^verbatim>\<open>fetchState\<close> reads.
\<close>

record HttpResponse =
  Status :: nat
  Decoded :: "error + StateBody"

record HttpRequest =
  ReqMethod :: string
  URL :: string
  Authorization :: string
  Payload :: "json option"

datatype action = Log string | Exec string | Http HttpRequest

record World =
  history :: "action list"
  sh :: "action list \<Rightarrow> string \<Rightarrow> error option"
  build :: "string \<Rightarrow> string \<Rightarrow> error option"
  exchange :: "action list \<Rightarrow> HttpRequest \<Rightarrow> error + HttpResponse"

definition record_action :: "action \<Rightarrow> World \<Rightarrow> World" where
  "record_action a w = w\<lparr>history := history w @ [a]\<rparr>"

subsection \<open>noop\<close>

definition NewNoop :: "World Backend" where
  "NewNoop =
     \<lparr>PowerOn = (\<lambda>w. (None, record_action (Log ''noop backend: PowerOn'') w)),
      PowerOff = (\<lambda>w. (None, record_action (Log ''noop backend: PowerOff'') w)),
      CurrentState = None, DisplayName = None, Ping = None\<rparr>"

subsection \<open>command\<close>

record command =
  onCmd :: string
  offCmd :: string

definition run :: "string \<Rightarrow> World \<Rightarrow> error option \<times> World" where
  "run c w = (sh w (history w) c, record_action (Exec c) w)"

definition commandBackend :: "command \<Rightarrow> World Backend" where
  "commandBackend c =
     \<lparr>PowerOn = run (onCmd c),
      PowerOff = run (offCmd c),
      CurrentState = None, DisplayName = None,
      Ping = Some (\<lambda>w. (None, w))\<rparr>"

definition NewCommand :: "string \<Rightarrow> string \<Rightarrow> error + World Backend" where
  "NewCommand on off =
     (if on = [] \<or> off = [] then Inl ''command backend requires both --on-cmd and --off-cmd''
      else Inr (commandBackend \<lparr>onCmd = on, offCmd = off\<rparr>))"

subsection \<open>HomeAssistant\<close>

record HomeAssistant =
  baseURL :: string
  token :: string
  entityID :: string

fun digits :: "nat \<Rightarrow> string" where
  "digits n =
     (if n < 10 then [char_of (48 + n)] else digits (n div 10) @ [char_of (48 + n mod 10)])"

definition do_request :: "HttpRequest \<Rightarrow> World \<Rightarrow> (error + HttpResponse) \<times> World" where
  "do_request req w =
     (case build w (ReqMethod req) (URL req) of
        Some err \<Rightarrow> (Inl err, w)
      | None \<Rightarrow> (exchange w (history w) req, record_action (Http req) w))"

definition callService :: "HomeAssistant \<Rightarrow> string \<Rightarrow> string \<Rightarrow> World \<Rightarrow> error option \<times> World" where
  "callService h domain service w =
     (case do_request
             \<lparr>ReqMethod = ''POST'',
              URL = baseURL h @ ''/api/services/'' @ domain @ ''/'' @ service,
              Authorization = ''Bearer '' @ token h,
              Payload = Some (JObject [(''entity_id'', JString (entityID h))])\<rparr> w of
        (Inl err, w') \<Rightarrow> (Some err, w')
      | (Inr resp, w') \<Rightarrow>
          if Status resp < 200 \<or> Status resp \<ge> 300 then
            (Some (''homeassistant service '' @ domain @ ''.'' @ service @ '': http '' @
                   digits (Status resp)), w')
          else (None, w'))"

definition fetchState :: "HomeAssistant \<Rightarrow> World \<Rightarrow> (error + string \<times> string) \<times> World" where
  "fetchState h w =
     (case do_request
             \<lparr>ReqMethod = ''GET'',
              URL = baseURL h @ ''/api/states/'' @ entityID h,
              Authorization = ''Bearer '' @ token h,
              Payload = None\<rparr> w of
        (Inl err, w') \<Rightarrow> (Inl err, w')
      | (Inr resp, w') \<Rightarrow>
          if Status resp \<noteq> 200 then
            (Inl (''homeassistant state: http '' @ digits (Status resp)), w')
          else
            (case Decoded resp of
               Inl err \<Rightarrow> (Inl err, w')
             | Inr b \<Rightarrow>
                 (Inr (State b,
                       (case Attributes b ''friendly_name'' of
                          Some (AString n) \<Rightarrow> n
                        | _ \<Rightarrow> [])), w')))"

definition HA_CurrentState :: "(string \<Rightarrow> string) \<Rightarrow> HomeAssistant \<Rightarrow> World \<Rightarrow> (error + bool) \<times> World" where
  "HA_CurrentState U h w =
     (case fetchState h w of
        (Inl err, w') \<Rightarrow> (Inl err, w')
      | (Inr (state, name), w') \<Rightarrow> (Inr (ToLower U state = ''on''), w'))"

definition HA_DisplayName :: "HomeAssistant \<Rightarrow> World \<Rightarrow> (error + string) \<times> World" where
  "HA_DisplayName h w =
     (case fetchState h w of
        (Inl err, w') \<Rightarrow> (Inl err, w')
      | (Inr (state, name), w') \<Rightarrow> (Inr name, w'))"

definition HomeAssistantBackend :: "(string \<Rightarrow> string) \<Rightarrow> HomeAssistant \<Rightarrow> World Backend" where
  "HomeAssistantBackend U h =
     \<lparr>PowerOn = callService h ''switch'' ''turn_on'',
      PowerOff = callService h ''switch'' ''turn_off'',
      CurrentState = Some (HA_CurrentState U h),
      DisplayName = Some (HA_DisplayName h),
      Ping = None\<rparr>"

text \<open>\<^verbatim>\<open>strings.TrimRight(baseURL, "/")\<close>\<close>

definition TrimRightSlash :: "string \<Rightarrow> string" where
  "TrimRightSlash s = rev (dropWhile (\<lambda>c. c = CHR ''/'') (rev s))"

definition NewHomeAssistant :: "string \<Rightarrow> string \<Rightarrow> string \<Rightarrow> error + HomeAssistant" where
  "NewHomeAssistant url tok entity =
     (if url = [] \<or> tok = [] \<or> entity = [] then
        Inl ''homeassistant backend requires baseURL, token, and entityID''
      else Inr \<lparr>baseURL = TrimRightSlash url, token = tok, entityID = entity\<rparr>)"

section \<open>The server\<close>

record 'w Config =
  Listen :: string
  Username :: string
  Password :: string
  Systems :: "string \<rightharpoonup> 'w Backend"

record Boot =
  BootSourceOverrideTarget :: string
  BootSourceOverrideEnabled :: string
  BootSourceOverrideMode :: string

text \<open>
  What a handler does besides answering: the backend methods it invokes, with the system
  they were invoked for, and the fixed delay of a restart.
\<close>

datatype call = CallPowerOn | CallPowerOff | CallCurrentState | CallDisplayName | CallPing

datatype event = Invoke string call | Sleep nat

text \<open>
  The \<^verbatim>\<open>Server\<close> struct (\<open>cfg\<close>, \<open>last\<close>, \<open>boot\<close>; the lock guards single reads and
  writes of the two maps and has no sequential content), together with the world the
  backends act on and the record of what the server did to it.
\<close>

record 'w Server =
  cfg :: "'w Config"
  last :: "string \<rightharpoonup> bool"
  boot :: "string \<rightharpoonup> Boot"
  world :: 'w
  events :: "event list"

definition New :: "'w Config \<Rightarrow> 'w \<Rightarrow> 'w Server" where
  "New c w = \<lparr>cfg = c, last = Map.empty, boot = Map.empty, world = w, events = []\<rparr>"

definition invoke :: "string \<Rightarrow> call \<Rightarrow> ('w \<Rightarrow> 'a \<times> 'w) \<Rightarrow> 'w Server \<Rightarrow> 'a \<times> 'w Server" where
  "invoke sid c f s =
     (case f (world s) of
        (r, w') \<Rightarrow> (r, s\<lparr>world := w', events := events s @ [Invoke sid c]\<rparr>))"

definition sleep :: "nat \<Rightarrow> 'w Server \<Rightarrow> 'w Server" where
  "sleep n s = s\<lparr>events := events s @ [Sleep n]\<rparr>"

definition applyReset :: "string \<Rightarrow> 'w Backend \<Rightarrow> string \<Rightarrow> 'w Server \<Rightarrow> error option \<times> 'w Server" where
  "applyReset sid be resetType s =
     (if resetType = ''On'' then
        (case invoke sid CallPowerOn (PowerOn be) s of
           (Some err, s1) \<Rightarrow> (Some err, s1)
         | (None, s1) \<Rightarrow> (None, s1\<lparr>last := (last s1)(sid \<mapsto> True)\<rparr>))
      else if resetType = ''ForceOff'' \<or> resetType = ''GracefulShutdown'' \<or> resetType = ''Off'' then
        (case invoke sid CallPowerOff (PowerOff be) s of
           (Some err, s1) \<Rightarrow> (Some err, s1)
         | (None, s1) \<Rightarrow> (None, s1\<lparr>last := (last s1)(sid \<mapsto> False)\<rparr>))
      else if resetType = ''ForceRestart'' \<or> resetType = ''GracefulRestart'' then
        (case invoke sid CallPowerOff (PowerOff be) s of
           (Some err, s1) \<Rightarrow> (Some err, s1)
         | (None, s1) \<Rightarrow>
             (case invoke sid CallPowerOn (PowerOn be) (sleep 2 s1) of
                (Some err, s2) \<Rightarrow> (Some err, s2)
              | (None, s2) \<Rightarrow> (None, s2\<lparr>last := (last s2)(sid \<mapsto> True)\<rparr>)))
      else (Some ''unsupported ResetType'', s))"

text \<open>Reading a Go map at a missing key yields the zero value and adds nothing.\<close>

definition lastOf :: "'w Server \<Rightarrow> string \<Rightarrow> bool" where
  "lastOf s sid = (case last s sid of None \<Rightarrow> False | Some b \<Rightarrow> b)"

definition bootOf :: "'w Server \<Rightarrow> string \<Rightarrow> Boot" where
  "bootOf s sid =
     (case boot s sid of
        None \<Rightarrow> \<lparr>BootSourceOverrideTarget = [], BootSourceOverrideEnabled = [],
                 BootSourceOverrideMode = []\<rparr>
      | Some b \<Rightarrow> b)"

text \<open>The power state reported by \<^verbatim>\<open>handleSystem\<close>: the live query first, the cache otherwise.\<close>

definition readState :: "string \<Rightarrow> 'w Backend \<Rightarrow> 'w Server \<Rightarrow> bool \<times> 'w Server" where
  "readState sid be s =
     (case CurrentState be of
        Some ps \<Rightarrow>
          (case invoke sid CallCurrentState ps s of
             (Inr v, s1) \<Rightarrow> (v, s1)
           | (Inl err, s1) \<Rightarrow> (lastOf s1 sid, s1))
      | None \<Rightarrow> (lastOf s sid, s))"

definition readName :: "string \<Rightarrow> 'w Backend \<Rightarrow> 'w Server \<Rightarrow> string \<times> 'w Server" where
  "readName sid be s =
     (case DisplayName be of
        Some np \<Rightarrow>
          (case invoke sid CallDisplayName np s of
             (Inr n, s1) \<Rightarrow> (if n \<noteq> [] then n else ''System '' @ sid, s1)
           | (Inl err, s1) \<Rightarrow> (''System '' @ sid, s1))
      | None \<Rightarrow> (''System '' @ sid, s))"

definition systemDocument :: "string \<Rightarrow> string \<Rightarrow> bool \<Rightarrow> Boot \<Rightarrow> json" where
  "systemDocument sid name on b =
     (let powerState = (if on then ''On'' else ''Off'');
          b' = (if BootSourceOverrideTarget b = [] then
                  \<lparr>BootSourceOverrideTarget = ''None'', BootSourceOverrideEnabled = ''Disabled'',
                   BootSourceOverrideMode = []\<rparr>
                else b)
      in JObject
        [(''@odata.id'', JString (''/redfish/v1/Systems/'' @ sid)),
         (''Id'', JString sid),
         (''Name'', JString name),
         (''PowerState'', JString powerState),
         (''Boot'', JObject
            [(''BootSourceOverrideTarget'', JString (BootSourceOverrideTarget b')),
             (''BootSourceOverrideEnabled'', JString (BootSourceOverrideEnabled b')),
             (''BootSourceOverrideTarget@Redfish.AllowableValues'',
                JArray [JString ''None'', JString ''Pxe'', JString ''Hdd''])]),
         (''Links'', JObject
            [(''ManagedBy'', JArray [JObject [(''@odata.id'', JString ''/redfish/v1/Managers/1'')]])]),
         (''Actions'', JObject
            [(''#ComputerSystem.Reset'', JObject
               [(''target'',
                   JString (''/redfish/v1/Systems/'' @ sid @ ''/Actions/ComputerSystem.Reset'')),
                (''ResetType@Redfish.AllowableValues'',
                   JArray [JString ''On'', JString ''ForceOff'', JString ''GracefulShutdown'',
                           JString ''ForceRestart''])])])])"

definition handleSystem :: "Request \<Rightarrow> 'w Server \<Rightarrow> Response \<times> 'w Server" where
  "handleSystem r s =
     (let path = TrimPrefix (Path r) ''/redfish/v1/Systems/'' in
      if path = [] then (NotFound, s)
      else if HasSuffix path ''/Actions/ComputerSystem.Reset'' then
        (if Method r \<noteq> ''POST'' then (httpError [] ''method not allowed'' 405, s)
         else
           let sid = TrimSuffix (TrimSuffix path ''/Actions/ComputerSystem.Reset'') ''/'' in
           case Systems (cfg s) sid of
             None \<Rightarrow> (NotFound, s)
           | Some be \<Rightarrow>
               (case Decode r of
                  Inl err \<Rightarrow> (httpError [] ''bad request'' 400, s)
                | Inr resetType \<Rightarrow>
                    (case applyReset sid be resetType s of
                       (Some err, s1) \<Rightarrow> (httpError [] err 400, s1)
                     | (None, s1) \<Rightarrow>
                         (writeJSON 200 (JObject [(''status'', JString ''ok'')]), s1))))
      else if Method r \<noteq> ''GET'' then (httpError [] ''method not allowed'' 405, s)
      else
        let sid = TrimSuffix path ''/'' in
        case Systems (cfg s) sid of
          None \<Rightarrow> (NotFound, s)
        | Some be \<Rightarrow>
            (case readState sid be s of
               (on, s1) \<Rightarrow>
                 (case readName sid be s1 of
                    (name, s2) \<Rightarrow>
                      (writeJSON 200 (systemDocument sid name on (bootOf s2 sid)), s2))))"

definition handleRoot :: "Request \<Rightarrow> 'w Server \<Rightarrow> Response \<times> 'w Server" where
  "handleRoot r s =
     (if Method r \<noteq> ''GET'' then (httpError [] ''method not allowed'' 405, s)
      else
        (writeJSON 200 (JObject
           [(''@odata.type'', JString ''#ServiceRoot.v1_0_0.ServiceRoot''),
            (''@odata.id'', JString ''/redfish/v1/''),
            (''Id'', JString ''RootService''),
            (''Name'', JString ''BMC Shim ServiceRoot''),
            (''Systems'', JObject [(''@odata.id'', JString ''/redfish/v1/Systems'')])]), s))"

definition handleLivez :: "Request \<Rightarrow> 'w Server \<Rightarrow> Response \<times> 'w Server" where
  "handleLivez r s = (\<lparr>StatusCode = 200, Header = [], Body = Text ''ok''\<rparr>, s)"

text \<open>
  Go enumerates a map in an order of its choosing. A handler that ranges over the registry
  takes that order as \<open>keys\<close>, a list of the registered ids (\<open>enumerates\<close>).
\<close>

definition enumerates :: "string list \<Rightarrow> 'w Server \<Rightarrow> bool" where
  "enumerates keys s = (distinct keys \<and> set keys = dom (Systems (cfg s)))"

definition handleSystems :: "string list \<Rightarrow> Request \<Rightarrow> 'w Server \<Rightarrow> Response \<times> 'w Server" where
  "handleSystems keys r s =
     (if Method r \<noteq> ''GET'' then (httpError [] ''method not allowed'' 405, s)
      else
        let members = map (\<lambda>sid. JObject [(''@odata.id'', JString (''/redfish/v1/Systems/'' @ sid))]) keys
        in (writeJSON 200 (JObject
              [(''@odata.id'', JString ''/redfish/v1/Systems''),
               (''Members'', JArray members),
               (''Members@odata.count'', JInt (int (length members))),
               (''Name'', JString ''Systems Collection'')]), s))"

text \<open>
  The loop of \<^verbatim>\<open>handleReadyz\<close>; the result is the flag \<^verbatim>\<open>success\<close>, and returning
  \<open>True\<close> is the \<^verbatim>\<open>break\<close>. A key that is not registered, which \<open>enumerates\<close>
  excludes, is passed over. \<^verbatim>\<open>len(s.cfg.Systems) == 0\<close> is read off \<open>keys\<close> as well.
\<close>

fun pingLoop :: "string list \<Rightarrow> 'w Server \<Rightarrow> bool \<times> 'w Server" where
  "pingLoop [] s = (False, s)"
| "pingLoop (k # ks) s =
     (case Systems (cfg s) k of
        None \<Rightarrow> pingLoop ks s
      | Some be \<Rightarrow>
          (case Ping be of
             None \<Rightarrow> (True, s)
           | Some hc \<Rightarrow>
               (case invoke k CallPing hc s of
                  (None, s1) \<Rightarrow> (True, s1)
                | (Some err, s1) \<Rightarrow> pingLoop ks s1)))"

definition handleReadyz :: "string list \<Rightarrow> Request \<Rightarrow> 'w Server \<Rightarrow> Response \<times> 'w Server" where
  "handleReadyz keys r s =
     (if length keys = 0 then (\<lparr>StatusCode = 200, Header = [], Body = Text ''ok''\<rparr>, s)
      else
        (case pingLoop keys s of
           (True, s1) \<Rightarrow> (\<lparr>StatusCode = 200, Header = [], Body = Text ''ok''\<rparr>, s1)
         | (False, s1) \<Rightarrow> (httpError [] ''all backends failed'' 503, s1)))"

type_synonym 'w handler = "Request \<Rightarrow> 'w Server \<Rightarrow> Response \<times> 'w Server"

definition authMiddleware :: "'w handler \<Rightarrow> 'w handler" where
  "authMiddleware next r s =
     (if Path r = ''/redfish/v1/'' \<or> Path r = ''/redfish/v1'' \<or>
         Path r = ''/livez'' \<or> Path r = ''/readyz'' then next r s
      else if Username (cfg s) = [] \<and> Password (cfg s) = [] then next r s
      else
        (case BasicAuth r of
           None \<Rightarrow>
             (httpError (HeaderSet ''WWW-Authenticate'' ''Basic realm=redfish'' []) ''unauthorized'' 401, s)
         | Some (usr, pwd) \<Rightarrow>
             if usr \<noteq> Username (cfg s) \<or> pwd \<noteq> Password (cfg s) then
               (httpError (HeaderSet ''WWW-Authenticate'' ''Basic realm=redfish'' []) ''unauthorized'' 401, s)
             else next r s))"

subsection \<open>The revision without health endpoints\<close>

text \<open>
  The server file kept under \<^verbatim>\<open>internal/server\<close> is an earlier revision of the one
  modelled above: it has no health endpoints and no boot configuration, its gate exempts
  no path, and its system document has no \<^verbatim>\<open>Boot\<close> and no \<^verbatim>\<open>Links\<close> member. Its
  \<^verbatim>\<open>applyReset\<close> is the one above.
\<close>

definition authMiddleware0 :: "'w handler \<Rightarrow> 'w handler" where
  "authMiddleware0 next r s =
     (if Username (cfg s) = [] \<and> Password (cfg s) = [] then next r s
      else
        (case BasicAuth r of
           None \<Rightarrow>
             (httpError (HeaderSet ''WWW-Authenticate'' ''Basic realm=redfish'' []) ''unauthorized'' 401, s)
         | Some (usr, pwd) \<Rightarrow>
             if usr \<noteq> Username (cfg s) \<or> pwd \<noteq> Password (cfg s) then
               (httpError (HeaderSet ''WWW-Authenticate'' ''Basic realm=redfish'' []) ''unauthorized'' 401, s)
             else next r s))"

definition systemDocument0 :: "string \<Rightarrow> string \<Rightarrow> bool \<Rightarrow> json" where
  "systemDocument0 sid name on =
     (let powerState = (if on then ''On'' else ''Off'')
      in JObject
        [(''@odata.id'', JString (''/redfish/v1/Systems/'' @ sid)),
         (''Id'', JString sid),
         (''Name'', JString name),
         (''PowerState'', JString powerState),
         (''Actions'', JObject
            [(''#ComputerSystem.Reset'', JObject
               [(''target'',
                   JString (''/redfish/v1/Systems/'' @ sid @ ''/Actions/ComputerSystem.Reset'')),
                (''ResetType@Redfish.AllowableValues'',
                   JArray [JString ''On'', JString ''ForceOff'', JString ''GracefulShutdown'',
                           JString ''ForceRestart''])])])])"

definition handleSystem0 :: "Request \<Rightarrow> 'w Server \<Rightarrow> Response \<times> 'w Server" where
  "handleSystem0 r s =
     (let path = TrimPrefix (Path r) ''/redfish/v1/Systems/'' in
      if path = [] then (NotFound, s)
      else if HasSuffix path ''/Actions/ComputerSystem.Reset'' then
        (if Method r \<noteq> ''POST'' then (httpError [] ''method not allowed'' 405, s)
         else
           let sid = TrimSuffix (TrimSuffix path ''/Actions/ComputerSystem.Reset'') ''/'' in
           case Systems (cfg s) sid of
             None \<Rightarrow> (NotFound, s)
           | Some be \<Rightarrow>
               (case Decode r of
                  Inl err \<Rightarrow> (httpError [] ''bad request'' 400, s)
                | Inr resetType \<Rightarrow>
                    (case applyReset sid be resetType s of
                       (Some err, s1) \<Rightarrow> (httpError [] err 400, s1)
                     | (None, s1) \<Rightarrow>
                         (writeJSON 200 (JObject [(''status'', JString ''ok'')]), s1))))
      else if Method r \<noteq> ''GET'' then (httpError [] ''method not allowed'' 405, s)
      else
        let sid = TrimSuffix path ''/'' in
        case Systems (cfg s) sid of
          None \<Rightarrow> (NotFound, s)
        | Some be \<Rightarrow>
            (case readState sid be s of
               (on, s1) \<Rightarrow>
                 (case readName sid be s1 of
                    (name, s2) \<Rightarrow> (writeJSON 200 (systemDocument0 sid name on), s2))))"

text \<open>A response without the two members the earlier revision does not have.\<close>

definition withoutBoot :: "Response \<Rightarrow> Response" where
  "withoutBoot resp =
     (case Body resp of
        Json (JObject kvs) \<Rightarrow>
          resp\<lparr>Body := Json (JObject (filter (\<lambda>kv. fst kv \<noteq> ''Boot'' \<and> fst kv \<noteq> ''Links'') kvs))\<rparr>
      | _ \<Rightarrow> resp)"

subsection \<open>Routing\<close>

text \<open>
  The \<^verbatim>\<open>ServeMux\<close> with the five patterns that \<^verbatim>\<open>New\<close> registers: a pattern ending in
  a slash matches every path it is a prefix of, any other pattern matches itself only, the
  longest matching pattern wins, a path that only lacks the final slash of such a pattern
  is redirected to it (the redirect's body is left out), and no match is a 404. The library
  answers a path that is not in canonical form with a redirect before any handler runs;
  here such a path is dispatched like any other, so the handlers see at least the requests
  they see in Go.
\<close>

definition mux :: "string list \<Rightarrow> 'w handler" where
  "mux keys r s =
     (if Path r = ''/redfish/v1/Systems'' then handleSystems keys r s
      else if HasPrefix (Path r) ''/redfish/v1/Systems/'' then handleSystem r s
      else if Path r = ''/livez'' then handleLivez r s
      else if Path r = ''/readyz'' then handleReadyz keys r s
      else if HasPrefix (Path r) ''/redfish/v1/'' then handleRoot r s
      else if Path r = ''/redfish/v1'' then
        (\<lparr>StatusCode = 301, Header = HeaderSet ''Location'' ''/redfish/v1/'' [], Body = NoBody\<rparr>, s)
      else (NotFound, s))"

text \<open>
  The handler that \<^verbatim>\<open>New\<close> installs. The logging wrapper around it copies the request
  body for the log and changes nothing a handler reads or writes.
\<close>

definition ServeHTTP :: "string list \<Rightarrow> 'w handler" where
  "ServeHTTP keys = authMiddleware (mux keys)"

text \<open>Requests served one after the other, each with the order its handler ranges in.\<close>

fun serveAll :: "(string list \<times> Request) list \<Rightarrow> 'w Server \<Rightarrow> 'w Server" where
  "serveAll [] s = s"
| "serveAll ((keys, r) # rs) s = serveAll rs (snd (ServeHTTP keys r s))"

section \<open>Observations\<close>

text \<open>What a client reads in a response.\<close>

definition PowerStateOf :: "Response \<Rightarrow> string option" where
  "PowerStateOf resp =
     (case Body resp of
        Json doc \<Rightarrow> (case field ''PowerState'' doc of Some (JString v) \<Rightarrow> Some v | _ \<Rightarrow> None)
      | _ \<Rightarrow> None)"

definition BootOf :: "Response \<Rightarrow> (json option \<times> json option) option" where
  "BootOf resp =
     (case Body resp of
        Json doc \<Rightarrow>
          (case field ''Boot'' doc of
             Some b \<Rightarrow> Some (field ''BootSourceOverrideTarget'' b, field ''BootSourceOverrideEnabled'' b)
           | None \<Rightarrow> None)
      | _ \<Rightarrow> None)"

definition AllowableResetTypesOf :: "Response \<Rightarrow> json option" where
  "AllowableResetTypesOf resp =
     (case Body resp of
        Json doc \<Rightarrow>
          (case field ''Actions'' doc of
             Some a \<Rightarrow>
               (case field ''#ComputerSystem.Reset'' a of
                  Some d \<Rightarrow> field ''ResetType@Redfish.AllowableValues'' d
                | None \<Rightarrow> None)
           | None \<Rightarrow> None)
      | _ \<Rightarrow> None)"

text \<open>
  The reading of \<open>every backend supports health-check and every one of them fails\<close>: the
  health checks of all the systems, run in the order of \<open>keys\<close>, each in the world the
  one before has left, with \<open>None\<close> (healthy) for a system that has no health check.
\<close>

fun pingAll :: "string list \<Rightarrow> 'w Server \<Rightarrow> error option list \<times> 'w Server" where
  "pingAll [] s = ([], s)"
| "pingAll (k # ks) s =
     (case Systems (cfg s) k of
        None \<Rightarrow> pingAll ks s
      | Some be \<Rightarrow>
          (case Ping be of
             None \<Rightarrow> (case pingAll ks s of (rs, s') \<Rightarrow> (None # rs, s'))
           | Some hc \<Rightarrow>
               (case invoke k CallPing hc s of
                  (e, s1) \<Rightarrow> (case pingAll ks s1 of (rs, s') \<Rightarrow> (e # rs, s')))))"

section \<open>Scenarios\<close>

text \<open>The registry \<^verbatim>\<open>{"1": noop}\<close> without credentials, and a world that answers nothing.\<close>

definition quiet :: World where
  "quiet = \<lparr>history = [], sh = (\<lambda>h c. None), build = (\<lambda>m u. None),
            exchange = (\<lambda>h q. Inl ''connection refused'')\<rparr>"

definition noopConfig :: "World Config" where
  "noopConfig =
     \<lparr>Listen = '':8080'', Username = [], Password = [], Systems = [''1'' \<mapsto> NewNoop]\<rparr>"

definition resetRequest :: "string \<Rightarrow> string \<Rightarrow> Request" where
  "resetRequest sid resetType =
     \<lparr>Method = ''POST'',
      Path = ''/redfish/v1/Systems/'' @ sid @ ''/Actions/ComputerSystem.Reset'',
      BasicAuth = None, Decode = Inr resetType\<rparr>"

definition getRequest :: "string \<Rightarrow> Request" where
  "getRequest p = \<lparr>Method = ''GET'', Path = p, BasicAuth = None, Decode = Inl ''EOF''\<rparr>"

text \<open>A shell-command system whose off-command fails.\<close>

definition brokenShell :: World where
  "brokenShell = \<lparr>history = [], sh = (\<lambda>h c. if c = ''poweroff'' then Some ''exit status 1'' else None),
                  build = (\<lambda>m u. None), exchange = (\<lambda>h q. Inl ''connection refused'')\<rparr>"

definition commandConfig :: "World Config" where
  "commandConfig =
     \<lparr>Listen = '':8080'', Username = [], Password = [],
      Systems = [''1'' \<mapsto> commandBackend \<lparr>onCmd = ''poweron'', offCmd = ''poweroff''\<rparr>]\<rparr>"

text \<open>
  A remote-switch system whose entity reports the state \<^verbatim>\<open>ON\<close>; no Unicode lowering is
  needed for it, so the identity stands for it.
\<close>

definition switchOn :: World where
  "switchOn =
     \<lparr>history = [], sh = (\<lambda>h c. None), build = (\<lambda>m u. None),
      exchange = (\<lambda>h q. Inr \<lparr>Status = 200,
                                 Decoded = Inr \<lparr>State = ''ON'', Attributes = Map.empty\<rparr>\<rparr>)\<rparr>"

definition switch :: HomeAssistant where
  "switch = \<lparr>baseURL = ''http://ha.local:8123'', token = ''secret'', entityID = ''switch.pc''\<rparr>"

definition switchConfig :: "World Config" where
  "switchConfig =
     \<lparr>Listen = '':8080'', Username = [], Password = [],
      Systems = [''1'' \<mapsto> HomeAssistantBackend (\<lambda>x. x) switch]\<rparr>"

text \<open>A backend of no variant in the repository: its health check fails.\<close>

definition downBackend :: "World Backend" where
  "downBackend =
     \<lparr>PowerOn = (\<lambda>w. (Some ''down'', w)), PowerOff = (\<lambda>w. (Some ''down'', w)),
      CurrentState = None, DisplayName = None, Ping = Some (\<lambda>w. (Some ''down'', w))\<rparr>"

definition downConfig :: "World Config" where
  "downConfig =
     \<lparr>Listen = '':8080'', Username = [], Password = [], Systems = [''1'' \<mapsto> downBackend]\<rparr>"

text \<open>The registry \<^verbatim>\<open>{"1": noop}\<close> behind a credential pair.\<close>

definition securedConfig :: "World Config" where
  "securedConfig =
     \<lparr>Listen = '':8080'', Username = ''admin'', Password = ''secret'',
      Systems = [''1'' \<mapsto> NewNoop]\<rparr>"

text \<open>A registry whose only id is the empty string (\<^verbatim>\<open>--system-id ""\<close>).\<close>

definition emptyIdConfig :: "World Config" where
  "emptyIdConfig =
     \<lparr>Listen = '':8080'', Username = [], Password = [], Systems = [[] \<mapsto> NewNoop]\<rparr>"

section \<open>Basic facts\<close>

lemma invoke_frame:
  "invoke sid c f s = (r, s') \<Longrightarrow>
     cfg s' = cfg s \<and> last s' = last s \<and> boot s' = boot s \<and>
     events s' = events s @ [Invoke sid c] \<and> (r, world s') = f (world s)"
  by (auto simp: invoke_def split: prod.splits)

lemma applyReset_unsupported:
  "resetType \<notin> {''On'', ''ForceOff'', ''GracefulShutdown'', ''Off'', ''ForceRestart'',
                  ''GracefulRestart''} \<Longrightarrow>
   applyReset sid be resetType s = (Some ''unsupported ResetType'', s)"
  by (simp add: applyReset_def)

lemmas path_simps = TrimPrefix_def HasPrefix_def HasSuffix_def TrimSuffix_def

lemma handleSystem_reset:
  assumes "path = TrimPrefix (Path r) ''/redfish/v1/Systems/''"
    and "HasSuffix path ''/Actions/ComputerSystem.Reset''"
    and "Method r = ''POST''"
    and "TrimSuffix (TrimSuffix path ''/Actions/ComputerSystem.Reset'') ''/'' = sid"
    and "Systems (cfg s) sid = Some be"
    and "Decode r = Inr resetType"
  shows "handleSystem r s =
           (case applyReset sid be resetType s of
              (Some err, s1) \<Rightarrow> (httpError [] err 400, s1)
            | (None, s1) \<Rightarrow> (writeJSON 200 (JObject [(''status'', JString ''ok'')]), s1))"
proof -
  have ne: "path \<noteq> []"
    using assms(2) by (auto simp: HasSuffix_def)
  show ?thesis
    using assms ne by (simp add: handleSystem_def Let_def)
qed

lemma handleSystem_get:
  assumes "path = TrimPrefix (Path r) ''/redfish/v1/Systems/''"
    and "path \<noteq> []"
    and "\<not> HasSuffix path ''/Actions/ComputerSystem.Reset''"
    and "Method r = ''GET''"
    and "TrimSuffix path ''/'' = sid"
    and "Systems (cfg s) sid = Some be"
  shows "handleSystem r s =
           (case readState sid be s of
              (on, s1) \<Rightarrow>
                (case readName sid be s1 of
                   (name, s2) \<Rightarrow> (writeJSON 200 (systemDocument sid name on (bootOf s2 sid)), s2)))"
  using assms by (simp add: handleSystem_def Let_def)

lemma applyReset_on_eq:
  "applyReset sid be ''On'' s =
     (case invoke sid CallPowerOn (PowerOn be) s of
        (Some err, s1) \<Rightarrow> (Some err, s1)
      | (None, s1) \<Rightarrow> (None, s1\<lparr>last := (last s1)(sid \<mapsto> True)\<rparr>))"
  by (simp add: applyReset_def)

lemma applyReset_off_eq:
  assumes "t = ''ForceOff'' \<or> t = ''GracefulShutdown'' \<or> t = ''Off''"
  shows "applyReset sid be t s =
     (case invoke sid CallPowerOff (PowerOff be) s of
        (Some err, s1) \<Rightarrow> (Some err, s1)
      | (None, s1) \<Rightarrow> (None, s1\<lparr>last := (last s1)(sid \<mapsto> False)\<rparr>))"
proof -
  have "t \<noteq> ''On''" using assms by auto
  then show ?thesis using assms by (simp add: applyReset_def)
qed

lemma applyReset_restart_eq:
  assumes "t = ''ForceRestart'' \<or> t = ''GracefulRestart''"
  shows "applyReset sid be t s =
     (case invoke sid CallPowerOff (PowerOff be) s of
        (Some err, s1) \<Rightarrow> (Some err, s1)
      | (None, s1) \<Rightarrow>
          (case invoke sid CallPowerOn (PowerOn be) (sleep 2 s1) of
             (Some err, s2) \<Rightarrow> (Some err, s2)
           | (None, s2) \<Rightarrow> (None, s2\<lparr>last := (last s2)(sid \<mapsto> True)\<rparr>)))"
proof -
  have "t \<noteq> ''On''" "\<not> (t = ''ForceOff'' \<or> t = ''GracefulShutdown'' \<or> t = ''Off'')"
    using assms by auto
  then show ?thesis using assms by (simp add: applyReset_def)
qed

lemma invoke_eq:
  "invoke sid c f s =
     (fst (f (world s)), s\<lparr>world := snd (f (world s)), events := events s @ [Invoke sid c]\<rparr>)"
  by (simp add: invoke_def split: prod.splits)

lemma applyReset_cases:
  obtains (on) "t = ''On''"
  | (off) "t = ''ForceOff'' \<or> t = ''GracefulShutdown'' \<or> t = ''Off''"
  | (restart) "t = ''ForceRestart'' \<or> t = ''GracefulRestart''"
  | (unsupported) "t \<notin> {''On'', ''ForceOff'', ''GracefulShutdown'', ''Off'', ''ForceRestart'',
                         ''GracefulRestart''}"
  by blast

lemma applyReset_frame:
  assumes "applyReset sid be t s = (r, s')"
  shows "cfg s' = cfg s \<and> boot s' = boot s"
proof (cases t rule: applyReset_cases)
  case on
  then show ?thesis
    using assms by (auto simp: applyReset_on_eq invoke_eq split: option.splits)
next
  case off
  then show ?thesis
    using assms by (auto simp: applyReset_off_eq invoke_eq split: option.splits)
next
  case restart
  then show ?thesis
    using assms by (auto simp: applyReset_restart_eq invoke_eq sleep_def split: option.splits)
next
  case unsupported
  then show ?thesis
    using assms by (simp add: applyReset_unsupported)
qed

lemma applyReset_On:
  "applyReset sid be ''On'' s = (None, s') \<Longrightarrow> last s' = (last s)(sid \<mapsto> True)"
  by (auto simp: applyReset_on_eq invoke_eq split: option.splits)

lemma applyReset_Off:
  assumes "t = ''ForceOff'' \<or> t = ''GracefulShutdown'' \<or> t = ''Off''"
    and "applyReset sid be t s = (None, s')"
  shows "last s' = (last s)(sid \<mapsto> False)"
  using assms(2) by (auto simp: applyReset_off_eq [OF assms(1)] invoke_eq split: option.splits)

lemma readName_frame:
  "readName sid be s = (n, s') \<Longrightarrow> cfg s' = cfg s \<and> last s' = last s \<and> boot s' = boot s"
  by (auto simp: readName_def invoke_eq split: option.splits sum.splits if_splits)

lemma readState_frame:
  "readState sid be s = (n, s') \<Longrightarrow> cfg s' = cfg s \<and> last s' = last s \<and> boot s' = boot s"
  by (auto simp: readState_def invoke_eq split: option.splits sum.splits)

lemma PowerStateOf_document:
  "PowerStateOf (writeJSON code (systemDocument sid name on b)) = Some (if on then ''On'' else ''Off'')"
  by (simp add: PowerStateOf_def writeJSON_def systemDocument_def Let_def)

lemma status_httpError: "StatusCode (httpError h m c) = c"
  by (simp add: httpError_def)

lemma status_writeJSON: "StatusCode (writeJSON c v) = c"
  by (simp add: writeJSON_def)

lemmas scenario_simps =
  resetRequest_def getRequest_def noopConfig_def New_def NewNoop_def quiet_def record_action_def

lemmas handler_simps =
  handleSystem_def applyReset_def invoke_def sleep_def readState_def readName_def lastOf_def
  bootOf_def httpError_def writeJSON_def NotFound_def HeaderSet_def Let_def

lemma applyReset_restart_result:
  assumes "t = ''ForceRestart'' \<or> t = ''GracefulRestart''"
    and "PowerOff be (world s) = (e1, w1)"
    and "PowerOn be w1 = (e2, w2)"
  shows "applyReset sid be t s =
     (case e1 of
        Some err \<Rightarrow> (Some err, s\<lparr>world := w1, events := events s @ [Invoke sid CallPowerOff]\<rparr>)
      | None \<Rightarrow>
          (case e2 of
             Some err \<Rightarrow>
               (Some err, s\<lparr>world := w2,
                  events := events s @ [Invoke sid CallPowerOff, Sleep 2, Invoke sid CallPowerOn]\<rparr>)
           | None \<Rightarrow>
               (None, s\<lparr>world := w2,
                  events := events s @ [Invoke sid CallPowerOff, Sleep 2, Invoke sid CallPowerOn],
                  last := (last s)(sid \<mapsto> True)\<rparr>)))"
  using assms(2,3)
  by (simp add: applyReset_restart_eq [OF assms(1)] invoke_eq sleep_def split: option.splits)

lemma of_char_eq_numeral: "((of_char c :: nat) = of_char d) = (c = d)"
  by simp

lemma lowerByte_eq_o: "lowerByte c = CHR ''o'' \<longleftrightarrow> c = CHR ''o'' \<or> c = CHR ''O''"
proof -
  have up: "(of_char c :: nat) = 79 \<longleftrightarrow> c = CHR ''O''"
    using of_char_eq_numeral [of c "CHR ''O''"] by simp
  have "(of_char c :: nat) < 256"
    by simp
  show ?thesis
  proof (cases "(65::nat) \<le> of_char c \<and> (of_char c :: nat) \<le> 90")
    case True
    then have "lowerByte c = char_of ((of_char c :: nat) + 32)"
      by (simp add: lowerByte_def)
    moreover have "(char_of ((of_char c :: nat) + 32) = CHR ''o'') \<longleftrightarrow> (of_char c :: nat) + 32 = 111"
      using True by (simp add: char_of_eq_iff take_bit_eq_mod)
    moreover have "c \<noteq> CHR ''o''"
      using True by auto
    ultimately show ?thesis
      using up by auto
  next
    case False
    then have "lowerByte c = c"
      by (auto simp add: lowerByte_def)
    moreover have "c \<noteq> CHR ''O''"
      using False by auto
    ultimately show ?thesis
      by simp
  qed
qed

lemma lowerByte_eq_n: "lowerByte c = CHR ''n'' \<longleftrightarrow> c = CHR ''n'' \<or> c = CHR ''N''"
proof -
  have up: "(of_char c :: nat) = 78 \<longleftrightarrow> c = CHR ''N''"
    using of_char_eq_numeral [of c "CHR ''N''"] by simp
  show ?thesis
  proof (cases "(65::nat) \<le> of_char c \<and> (of_char c :: nat) \<le> 90")
    case True
    then have "lowerByte c = char_of ((of_char c :: nat) + 32)"
      by (simp add: lowerByte_def)
    moreover have "(char_of ((of_char c :: nat) + 32) = CHR ''n'') \<longleftrightarrow> (of_char c :: nat) + 32 = 110"
      using True by (simp add: char_of_eq_iff take_bit_eq_mod)
    moreover have "c \<noteq> CHR ''n''"
      using True by auto
    ultimately show ?thesis
      using up by auto
  next
    case False
    then have "lowerByte c = c"
      by (auto simp add: lowerByte_def)
    moreover have "c \<noteq> CHR ''N''"
      using False by auto
    ultimately show ?thesis
      by simp
  qed
qed

lemma map_lowerByte_on:
  "map lowerByte s = ''on'' \<longleftrightarrow> s \<in> {''on'', ''On'', ''oN'', ''ON''}"
proof -
  have "map lowerByte s = ''on'' \<longleftrightarrow>
        (\<exists>a b. s = [a, b] \<and> lowerByte a = CHR ''o'' \<and> lowerByte b = CHR ''n'')"
    by (auto simp: map_eq_Cons_conv)
  then show ?thesis
    by (auto simp: lowerByte_eq_o lowerByte_eq_n)
qed

lemma ToLower_on:
  assumes "\<forall>x. \<not> isASCII x \<longrightarrow> U x \<noteq> ''on''"
  shows "ToLower U s = ''on'' \<longleftrightarrow> s \<in> {''on'', ''On'', ''oN'', ''ON''}"
proof (cases "isASCII s")
  case True
  then show ?thesis
    by (simp only: ToLower_def if_True map_lowerByte_on)
next
  case False
  then have "s \<notin> {''on'', ''On'', ''oN'', ''ON''}"
    by (auto simp: isASCII_def)
  then show ?thesis
    using False assms by (simp add: ToLower_def)
qed

lemma readState_live:
  assumes "CurrentState be = Some ps" and "ps (world s) = (Inr v, w1)"
  shows "readState sid be s = (v, s\<lparr>world := w1, events := events s @ [Invoke sid CallCurrentState]\<rparr>)"
  using assms by (simp add: readState_def invoke_eq)

lemma pingLoop_cfg: "pingLoop keys s = (b, s') \<Longrightarrow> cfg s' = cfg s"
proof (induction keys arbitrary: s)
  case Nil
  then show ?case by simp
next
  case (Cons k ks)
  show ?case
  proof (cases "Systems (cfg s) k")
    case None
    then show ?thesis using Cons by simp
  next
    case (Some be)
    note be = this
    show ?thesis
    proof (cases "Ping be")
      case None
      then show ?thesis using Cons.prems be by auto
    next
      case (Some hc)
      let ?s1 = "s\<lparr>world := snd (hc (world s)), events := events s @ [Invoke k CallPing]\<rparr>"
      show ?thesis
      proof (cases "fst (hc (world s))")
        case None
        then show ?thesis using Cons.prems be Some by (auto simp: invoke_eq)
      next
        case (Some err)
        then have "pingLoop ks ?s1 = (b, s')"
          using Cons.prems be \<open>Ping be = Some hc\<close> by (simp add: invoke_eq)
        then have "cfg s' = cfg ?s1" by (rule Cons.IH)
        then show ?thesis by simp
      qed
    qed
  qed
qed

lemma pingLoop_frame: "pingLoop keys s = (b, s') \<Longrightarrow> last s' = last s \<and> boot s' = boot s"
proof (induction keys arbitrary: s)
  case Nil
  then show ?case by simp
next
  case (Cons k ks)
  show ?case
  proof (cases "Systems (cfg s) k")
    case None
    then show ?thesis using Cons by simp
  next
    case (Some be)
    note be = this
    show ?thesis
    proof (cases "Ping be")
      case None
      then show ?thesis using Cons.prems be by auto
    next
      case (Some hc)
      let ?s1 = "s\<lparr>world := snd (hc (world s)), events := events s @ [Invoke k CallPing]\<rparr>"
      show ?thesis
      proof (cases "fst (hc (world s))")
        case None
        then show ?thesis using Cons.prems be Some by (auto simp: invoke_eq)
      next
        case (Some err)
        then have "pingLoop ks ?s1 = (b, s')"
          using Cons.prems be \<open>Ping be = Some hc\<close> by (simp add: invoke_eq)
        then have "last s' = last ?s1 \<and> boot s' = boot ?s1" by (rule Cons.IH)
        then show ?thesis by simp
      qed
    qed
  qed
qed

lemma pingLoop_healthy:
  assumes "sid \<in> set keys" and "Systems (cfg s) sid = Some be"
    and "Ping be = None \<or> (\<exists>hc. Ping be = Some hc \<and> (\<forall>w. fst (hc w) = None))"
  shows "fst (pingLoop keys s)"
  using assms(1,2)
proof (induction keys arbitrary: s)
  case Nil
  then show ?case by simp
next
  case (Cons k ks)
  show ?case
  proof (cases "Systems (cfg s) k")
    case None
    then have "sid \<in> set ks" using Cons.prems by auto
    then show ?thesis using Cons.IH Cons.prems(2) None by simp
  next
    case (Some bk)
    note bk = this
    show ?thesis
    proof (cases "Ping bk")
      case None
      then show ?thesis using bk by simp
    next
      case (Some hc)
      let ?s1 = "s\<lparr>world := snd (hc (world s)), events := events s @ [Invoke k CallPing]\<rparr>"
      show ?thesis
      proof (cases "fst (hc (world s))")
        case None
        then show ?thesis using bk Some by (simp add: invoke_eq)
      next
        case (Some err)
        then have "k \<noteq> sid"
          using assms(3) bk \<open>Ping bk = Some hc\<close> Cons.prems(2) by auto
        then have "sid \<in> set ks" using Cons.prems(1) by auto
        moreover have "Systems (cfg ?s1) sid = Some be" using Cons.prems(2) by simp
        ultimately have "fst (pingLoop ks ?s1)" by (rule Cons.IH)
        then show ?thesis
          using bk \<open>Ping bk = Some hc\<close> Some by (simp add: invoke_eq)
      qed
    qed
  qed
qed

lemma pingLoop_all_fail:
  assumes "\<forall>k\<in>set keys. Systems (cfg s) k \<noteq> None"
  shows "\<not> fst (pingLoop keys s) \<longleftrightarrow> (\<forall>e\<in>set (fst (pingAll keys s)). e \<noteq> None)"
  using assms
proof (induction keys arbitrary: s)
  case Nil
  then show ?case by simp
next
  case (Cons k ks)
  then obtain be where be: "Systems (cfg s) k = Some be" by auto
  show ?case
  proof (cases "Ping be")
    case None
    then show ?thesis using be by (simp split: prod.splits)
  next
    case (Some hc)
    let ?s1 = "s\<lparr>world := snd (hc (world s)), events := events s @ [Invoke k CallPing]\<rparr>"
    have IH: "\<not> fst (pingLoop ks ?s1) \<longleftrightarrow> (\<forall>e\<in>set (fst (pingAll ks ?s1)). e \<noteq> None)"
      using Cons.prems by (intro Cons.IH) simp
    show ?thesis
    proof (cases "fst (hc (world s))")
      case None
      then show ?thesis using be Some by (simp add: invoke_eq split: prod.splits)
    next
      case (Some err)
      then show ?thesis
        using be \<open>Ping be = Some hc\<close> IH by (simp add: invoke_eq split: prod.splits)
    qed
  qed
qed

lemma pingAll_supported:
  assumes "\<forall>e\<in>set (fst (pingAll keys s)). e \<noteq> None" and "k \<in> set keys"
    and "Systems (cfg s) k = Some be"
  shows "Ping be \<noteq> None"
  using assms
proof (induction keys arbitrary: s)
  case Nil
  then show ?case by simp
next
  case (Cons a ks)
  show ?case
  proof (cases "Systems (cfg s) a")
    case None
    then show ?thesis using Cons by auto
  next
    case (Some ba)
    note ba = this
    show ?thesis
    proof (cases "Ping ba")
      case None
      then show ?thesis using Cons.prems(1) ba by (simp split: prod.splits)
    next
      case (Some hc)
      let ?s1 = "s\<lparr>world := snd (hc (world s)), events := events s @ [Invoke a CallPing]\<rparr>"
      show ?thesis
      proof (cases "k = a")
        case True
        then show ?thesis using ba Some Cons.prems(3) by simp
      next
        case False
        then have "k \<in> set ks" using Cons.prems(2) by simp
        moreover have "\<forall>e\<in>set (fst (pingAll ks ?s1)). e \<noteq> None"
          using Cons.prems(1) ba Some by (simp add: invoke_eq split: prod.splits)
        moreover have "Systems (cfg ?s1) k = Some be" using Cons.prems(3) by simp
        ultimately show ?thesis using Cons.IH by blast
      qed
    qed
  qed
qed

lemma handleReadyz_status:
  "StatusCode (fst (handleReadyz keys r s)) = (if keys = [] \<or> fst (pingLoop keys s) then 200 else 503)"
  by (cases "pingLoop keys s") (auto simp: handleReadyz_def status_httpError)

text \<open>
  The gate of the revision without health endpoints forwards no request that lacks the
  configured pair, whatever its path.
\<close>

lemma authMiddleware0_no_exemption:
  assumes "\<not> (Username (cfg s) = [] \<and> Password (cfg s) = [])"
    and "BasicAuth r \<noteq> Some (Username (cfg s), Password (cfg s))"
  shows "authMiddleware0 next r s =
           (httpError [(''WWW-Authenticate'', ''Basic realm=redfish'')] ''unauthorized'' 401, s)"
  using assms by (auto simp: authMiddleware0_def HeaderSet_def split: option.splits)

lemma status_NotFound: "StatusCode NotFound = 404"
  by (simp add: NotFound_def status_httpError)

lemma handleSystem_reset_status:
  assumes "path = TrimPrefix (Path r) ''/redfish/v1/Systems/''"
    and "HasSuffix path ''/Actions/ComputerSystem.Reset''"
    and "Method r = ''POST''"
    and "Systems (cfg s) (TrimSuffix (TrimSuffix path ''/Actions/ComputerSystem.Reset'') ''/'') = Some be"
  shows "StatusCode (fst (handleSystem r s)) = 400 \<or> StatusCode (fst (handleSystem r s)) = 200"
proof -
  have ne: "path \<noteq> []"
    using assms(2) by (auto simp: HasSuffix_def)
  show ?thesis
  proof (cases "Decode r")
    case (Inl err)
    then show ?thesis
      using assms ne by (simp add: handleSystem_def Let_def status_httpError)
  next
    case (Inr t)
    obtain e s1 where "applyReset (TrimSuffix (TrimSuffix path ''/Actions/ComputerSystem.Reset'') ''/'') be t s = (e, s1)"
      by (cases "applyReset (TrimSuffix (TrimSuffix path ''/Actions/ComputerSystem.Reset'') ''/'') be t s")
    then show ?thesis
      using handleSystem_reset [OF assms(1-3) refl assms(4) Inr]
      by (cases e) (simp_all add: status_httpError status_writeJSON)
  qed
qed

lemma handleSystem_get_status:
  assumes "path = TrimPrefix (Path r) ''/redfish/v1/Systems/''"
    and "path \<noteq> []"
    and "\<not> HasSuffix path ''/Actions/ComputerSystem.Reset''"
    and "Method r = ''GET''"
    and "Systems (cfg s) (TrimSuffix path ''/'') = Some be"
  shows "StatusCode (fst (handleSystem r s)) = 200"
proof -
  let ?sid = "TrimSuffix path ''/''"
  obtain on s1 where rs: "readState ?sid be s = (on, s1)"
    by (cases "readState ?sid be s")
  obtain name s2 where rn: "readName ?sid be s1 = (name, s2)"
    by (cases "readName ?sid be s1")
  have "handleSystem r s = (writeJSON 200 (systemDocument ?sid name on (bootOf s2 ?sid)), s2)"
    using handleSystem_get [OF assms(1-4) refl assms(5)] rs rn by simp
  then show ?thesis
    by (simp add: status_writeJSON)
qed

lemma BootOf_document:
  "BootOf (writeJSON code (systemDocument sid name on b)) =
     (if BootSourceOverrideTarget b = [] then Some (Some (JString ''None''), Some (JString ''Disabled''))
      else Some (Some (JString (BootSourceOverrideTarget b)), Some (JString (BootSourceOverrideEnabled b))))"
  by (simp add: BootOf_def writeJSON_def systemDocument_def Let_def)

lemma handleSystem_get_other:
  assumes "Method r = ''GET''"
    and "path = TrimPrefix (Path r) ''/redfish/v1/Systems/''"
    and "path = [] \<or> HasSuffix path ''/Actions/ComputerSystem.Reset'' \<or>
         Systems (cfg s) (TrimSuffix path ''/'') = None"
  shows "snd (handleSystem r s) = s"
proof (cases "path = []")
  case True
  then show ?thesis
    using assms(1,2) by (simp add: handleSystem_def)
next
  case False
  note ne = this
  show ?thesis
  proof (cases "HasSuffix path ''/Actions/ComputerSystem.Reset''")
    case True
    then show ?thesis
      using assms(1,2) ne by (simp add: handleSystem_def Let_def)
  next
    case False
    then have "Systems (cfg s) (TrimSuffix path ''/'') = None"
      using assms(3) ne by simp
    then show ?thesis
      using assms(1,2) ne False by (simp add: handleSystem_def Let_def)
  qed
qed

lemma handleSystem_get_frame:
  assumes "Method r = ''GET''"
    and "path = TrimPrefix (Path r) ''/redfish/v1/Systems/''"
  shows "cfg (snd (handleSystem r s)) = cfg s \<and> last (snd (handleSystem r s)) = last s \<and>
         boot (snd (handleSystem r s)) = boot s"
proof (cases "path = [] \<or> HasSuffix path ''/Actions/ComputerSystem.Reset'' \<or>
         Systems (cfg s) (TrimSuffix path ''/'') = None")
  case True
  have "snd (handleSystem r s) = s"
    using assms True by (rule handleSystem_get_other)
  then show ?thesis by simp
next
  case False
  then obtain be where be: "Systems (cfg s) (TrimSuffix path ''/'') = Some be"
    and ne: "path \<noteq> []" and nosuf: "\<not> HasSuffix path ''/Actions/ComputerSystem.Reset''"
    by auto
  let ?sid = "TrimSuffix path ''/''"
  obtain on s1 where rs: "readState ?sid be s = (on, s1)"
    by (cases "readState ?sid be s")
  obtain name s2 where rn: "readName ?sid be s1 = (name, s2)"
    by (cases "readName ?sid be s1")
  have h: "handleSystem r s = (writeJSON 200 (systemDocument ?sid name on (bootOf s2 ?sid)), s2)"
    using handleSystem_get [OF assms(2) ne nosuf assms(1) refl be] rs rn by simp
  show ?thesis
    using readState_frame [OF rs] readName_frame [OF rn] by (simp add: h)
qed

lemma handleSystem_frame:
  "cfg (snd (handleSystem r s)) = cfg s \<and> boot (snd (handleSystem r s)) = boot s"
proof -
  let ?path = "TrimPrefix (Path r) ''/redfish/v1/Systems/''"
  let ?suffix = "''/Actions/ComputerSystem.Reset''"
  let ?sid = "TrimSuffix (TrimSuffix ?path ?suffix) ''/''"
  show ?thesis
  proof (cases "Method r = ''GET''")
    case True
    then show ?thesis
      using handleSystem_get_frame [of r ?path s] by simp
  next
    case False
    note notget = this
    show ?thesis
    proof (cases "?path \<noteq> [] \<and> HasSuffix ?path ?suffix \<and> Method r = ''POST''")
      case False
      then have "snd (handleSystem r s) = s"
        using notget by (auto simp: handleSystem_def Let_def)
      then show ?thesis by simp
    next
      case True
      note post = this
      show ?thesis
      proof (cases "Systems (cfg s) ?sid")
        case None
        then have "snd (handleSystem r s) = s"
          using post by (simp add: handleSystem_def Let_def)
        then show ?thesis by simp
      next
        case (Some be)
        note be = this
        show ?thesis
        proof (cases "Decode r")
          case (Inl err)
          then have "snd (handleSystem r s) = s"
            using post be by (simp add: handleSystem_def Let_def)
          then show ?thesis by simp
        next
          case (Inr t)
          obtain e s1 where ar: "applyReset ?sid be t s = (e, s1)"
            by (cases "applyReset ?sid be t s")
          have "snd (handleSystem r s) = s1"
            using handleSystem_reset [OF refl _ _ refl be Inr] post ar
            by (cases e) simp_all
          then show ?thesis
            using applyReset_frame [OF ar] by simp
        qed
      qed
    qed
  qed
qed

lemma handleReadyz_frame:
  "cfg (snd (handleReadyz keys r s)) = cfg s \<and> boot (snd (handleReadyz keys r s)) = boot s"
proof -
  obtain b s1 where pl: "pingLoop keys s = (b, s1)"
    by (cases "pingLoop keys s")
  have "snd (handleReadyz keys r s) = s \<or> snd (handleReadyz keys r s) = s1"
    using pl by (cases b) (simp_all add: handleReadyz_def)
  then show ?thesis
    using pingLoop_cfg [OF pl] pingLoop_frame [OF pl] by auto
qed

lemma mux_frame: "cfg (snd (mux keys r s)) = cfg s \<and> boot (snd (mux keys r s)) = boot s"
  using handleSystem_frame [of r s] handleReadyz_frame [of keys r s]
  by (simp add: mux_def handleSystems_def handleLivez_def handleRoot_def Let_def)

lemma authMiddleware_frame:
  assumes "\<And>r s. cfg (snd (next r s)) = cfg s \<and> boot (snd (next r s)) = boot s"
  shows "cfg (snd (authMiddleware next r s)) = cfg s \<and> boot (snd (authMiddleware next r s)) = boot s"
  using assms [of r s] by (simp add: authMiddleware_def split: option.splits)

lemma ServeHTTP_frame:
  "cfg (snd (ServeHTTP keys r s)) = cfg s \<and> boot (snd (ServeHTTP keys r s)) = boot s"
  unfolding ServeHTTP_def by (rule authMiddleware_frame) (rule mux_frame)

lemma serveAll_frame: "cfg (serveAll rs s) = cfg s \<and> boot (serveAll rs s) = boot s"
proof (induction rs arbitrary: s)
  case Nil
  then show ?case by simp
next
  case (Cons a rs)
  obtain keys r where a: "a = (keys, r)"
    by (cases a)
  show ?case
    using Cons.IH [of "snd (ServeHTTP keys r s)"] ServeHTTP_frame [of keys r s]
    by (simp add: a)
qed

lemma handleSystem_document:
  assumes "Method r = ''GET''"
    and "StatusCode (fst (handleSystem r s)) = 200"
  shows "\<exists>sid name on s2. boot s2 = boot s \<and>
           handleSystem r s = (writeJSON 200 (systemDocument sid name on (bootOf s2 sid)), s2)"
proof -
  let ?path = "TrimPrefix (Path r) ''/redfish/v1/Systems/''"
  have ne: "?path \<noteq> []"
    using assms by (auto simp: handleSystem_def status_NotFound)
  have nosuf: "\<not> HasSuffix ?path ''/Actions/ComputerSystem.Reset''"
    using assms ne by (auto simp: handleSystem_def Let_def status_httpError)
  obtain be where be: "Systems (cfg s) (TrimSuffix ?path ''/'') = Some be"
    using assms ne nosuf
    by (cases "Systems (cfg s) (TrimSuffix ?path ''/'')") (auto simp: handleSystem_def Let_def status_NotFound)
  let ?sid = "TrimSuffix ?path ''/''"
  obtain on s1 where rs: "readState ?sid be s = (on, s1)"
    by (cases "readState ?sid be s")
  obtain name s2 where rn: "readName ?sid be s1 = (name, s2)"
    by (cases "readName ?sid be s1")
  have h: "handleSystem r s = (writeJSON 200 (systemDocument ?sid name on (bootOf s2 ?sid)), s2)"
    using handleSystem_get [OF refl ne nosuf assms(1) refl be] rs rn by simp
  moreover have "boot s2 = boot s"
    using readState_frame [OF rs] readName_frame [OF rn] by simp
  ultimately show ?thesis by blast
qed

lemma ServeHTTP_system:
  assumes "HasPrefix (Path r) ''/redfish/v1/Systems/''"
  shows "ServeHTTP keys r s = handleSystem r s \<or> StatusCode (fst (ServeHTTP keys r s)) = 401"
proof -
  have "Path r \<noteq> ''/redfish/v1/Systems''"
    using assms by (auto simp: HasPrefix_def)
  then have "mux keys r s = handleSystem r s"
    using assms by (simp add: mux_def)
  then show ?thesis
    by (auto simp: ServeHTTP_def authMiddleware_def status_httpError split: option.splits)
qed




lemma withoutBoot_document:
  "withoutBoot (writeJSON code (systemDocument sid name on b)) = writeJSON code (systemDocument0 sid name on)"
  by (simp add: withoutBoot_def writeJSON_def systemDocument_def systemDocument0_def Let_def)

lemma withoutBoot_other:
  "withoutBoot (httpError h m c) = httpError h m c"
  "withoutBoot NotFound = NotFound"
  "withoutBoot (writeJSON 200 (JObject [(''status'', JString ''ok'')])) =
     writeJSON 200 (JObject [(''status'', JString ''ok'')])"
  by (simp_all add: withoutBoot_def httpError_def NotFound_def writeJSON_def)

lemma handleSystem0_handleSystem:
  "handleSystem0 r s = (withoutBoot (fst (handleSystem r s)), snd (handleSystem r s))"
proof -
  let ?path = "TrimPrefix (Path r) ''/redfish/v1/Systems/''"
  let ?suffix = "''/Actions/ComputerSystem.Reset''"
  show ?thesis
  proof (cases "?path = []")
    case True
    then show ?thesis
      by (simp add: handleSystem_def handleSystem0_def withoutBoot_other)
  next
    case False
    note ne = this
    show ?thesis
    proof (cases "HasSuffix ?path ?suffix")
      case True
      then show ?thesis
        using ne
        by (simp add: handleSystem_def handleSystem0_def Let_def withoutBoot_other
              split: option.splits sum.splits prod.splits)
    next
      case False
      then show ?thesis
        using ne
        by (simp add: handleSystem_def handleSystem0_def Let_def withoutBoot_other
              withoutBoot_document split: option.splits prod.splits)
    qed
  qed
qed

lemma map_of_filter_other:
  "P k \<Longrightarrow> map_of (filter (\<lambda>kv. P (fst kv)) kvs) k = map_of kvs k"
  by (induction kvs) auto

lemma withoutBoot_field:
  assumes "k \<noteq> ''Boot''" and "k \<noteq> ''Links''"
  shows "(case Body (withoutBoot resp) of Json d \<Rightarrow> field k d | _ \<Rightarrow> None) =
         (case Body resp of Json d \<Rightarrow> field k d | _ \<Rightarrow> None)"
proof (cases "Body resp")
  case (Json d)
  then show ?thesis
    using assms map_of_filter_other [of "\<lambda>x. x \<noteq> ''Boot'' \<and> x \<noteq> ''Links''" k]
    by (cases d) (simp_all add: withoutBoot_def)
qed (simp_all add: withoutBoot_def)

lemma handleSystem0_same:
  "snd (handleSystem0 r s) = snd (handleSystem r s)"
  "StatusCode (fst (handleSystem0 r s)) = StatusCode (fst (handleSystem r s))"
  "PowerStateOf (fst (handleSystem0 r s)) = PowerStateOf (fst (handleSystem r s))"
  "AllowableResetTypesOf (fst (handleSystem0 r s)) = AllowableResetTypesOf (fst (handleSystem r s))"
proof -
  let ?resp = "fst (handleSystem r s)"
  show "snd (handleSystem0 r s) = snd (handleSystem r s)"
    by (simp add: handleSystem0_handleSystem)
  show "StatusCode (fst (handleSystem0 r s)) = StatusCode ?resp"
    by (simp add: handleSystem0_handleSystem withoutBoot_def split: body.splits json.splits)
  have "(case Body (withoutBoot ?resp) of Json d \<Rightarrow> field ''PowerState'' d | _ \<Rightarrow> None) =
        (case Body ?resp of Json d \<Rightarrow> field ''PowerState'' d | _ \<Rightarrow> None)"
    by (rule withoutBoot_field) simp_all
  then show "PowerStateOf (fst (handleSystem0 r s)) = PowerStateOf ?resp"
    by (simp add: handleSystem0_handleSystem PowerStateOf_def split: body.splits)
  have "(case Body (withoutBoot ?resp) of Json d \<Rightarrow> field ''Actions'' d | _ \<Rightarrow> None) =
        (case Body ?resp of Json d \<Rightarrow> field ''Actions'' d | _ \<Rightarrow> None)"
    by (rule withoutBoot_field) simp_all
  then show "AllowableResetTypesOf (fst (handleSystem0 r s)) = AllowableResetTypesOf ?resp"
    by (simp add: handleSystem0_handleSystem AllowableResetTypesOf_def split: body.splits)
qed

section \<open>The cached state after a reset\<close>

text \<open>
  C1. A reset request and a later \<^verbatim>\<open>GET\<close> address the same system, whose backend has
  no \<^verbatim>\<open>CurrentState\<close>. If the reset is answered with 200, the \<^verbatim>\<open>GET\<close> served in
  the resulting state reports \<open>PowerState\<close> \<open>On\<close> after \<open>On\<close>, and \<open>Off\<close> after
  \<open>Off\<close>, \<open>ForceOff\<close> or \<open>GracefulShutdown\<close>.
\<close>

theorem cached_state_follows_reset:
  assumes reset: "p1 = TrimPrefix (Path r1) ''/redfish/v1/Systems/''"
      "HasSuffix p1 ''/Actions/ComputerSystem.Reset''"
      "Method r1 = ''POST''"
      "TrimSuffix (TrimSuffix p1 ''/Actions/ComputerSystem.Reset'') ''/'' = sid"
      "Decode r1 = Inr resetType"
    and get: "p2 = TrimPrefix (Path r2) ''/redfish/v1/Systems/''"
      "p2 \<noteq> []"
      "\<not> HasSuffix p2 ''/Actions/ComputerSystem.Reset''"
      "Method r2 = ''GET''"
      "TrimSuffix p2 ''/'' = sid"
    and be: "Systems (cfg s) sid = Some be" "CurrentState be = None"
    and ok: "handleSystem r1 s = (resp1, s1)" "StatusCode resp1 = 200"
  shows "(resetType = ''On'' \<longrightarrow> PowerStateOf (fst (handleSystem r2 s1)) = Some ''On'') \<and>
         (resetType = ''Off'' \<or> resetType = ''ForceOff'' \<or> resetType = ''GracefulShutdown'' \<longrightarrow>
            PowerStateOf (fst (handleSystem r2 s1)) = Some ''Off'')"
proof -
  obtain e s1' where ar: "applyReset sid be resetType s = (e, s1')"
    by (cases "applyReset sid be resetType s")
  have h1: "handleSystem r1 s =
      (case e of Some err \<Rightarrow> (httpError [] err 400, s1')
       | None \<Rightarrow> (writeJSON 200 (JObject [(''status'', JString ''ok'')]), s1'))"
    using handleSystem_reset [OF reset(1-4) be(1) reset(5)] ar by (simp split: option.splits)
  have e: "e = None" and s1: "s1' = s1"
    using h1 ok by (auto simp: status_httpError split: option.splits)
  have cfg1: "cfg s1 = cfg s"
    using applyReset_frame ar s1 by blast
  have be1: "Systems (cfg s1) sid = Some be"
    using be(1) cfg1 by simp
  obtain n s2 where rn: "readName sid be s1 = (n, s2)"
    by (cases "readName sid be s1")
  have h2: "handleSystem r2 s1 = (writeJSON 200 (systemDocument sid n (lastOf s1 sid) (bootOf s2 sid)), s2)"
    using handleSystem_get [OF get be1] be(2) rn by (simp add: readState_def)
  have on: "resetType = ''On'' \<Longrightarrow> lastOf s1 sid"
    using applyReset_On [of sid be s s1] ar e s1 by (simp add: lastOf_def)
  have off: "resetType = ''Off'' \<or> resetType = ''ForceOff'' \<or> resetType = ''GracefulShutdown'' \<Longrightarrow> \<not> lastOf s1 sid"
    using applyReset_Off [of resetType sid be s s1] ar e s1 by (auto simp: lastOf_def)
  show ?thesis
  proof (intro conjI impI)
    assume "resetType = ''On''"
    then have "lastOf s1 sid" by (rule on)
    then show "PowerStateOf (fst (handleSystem r2 s1)) = Some ''On''"
      by (simp add: h2 PowerStateOf_document)
  next
    assume "resetType = ''Off'' \<or> resetType = ''ForceOff'' \<or> resetType = ''GracefulShutdown''"
    then have "\<not> lastOf s1 sid" by (rule off)
    then show "PowerStateOf (fst (handleSystem r2 s1)) = Some ''Off''"
      by (simp add: h2 PowerStateOf_document)
  qed
qed

text \<open>The scenario of the silent backend: \<open>On\<close>, read, then \<open>ForceOff\<close>, read.\<close>

theorem cached_state_follows_reset_witness:
  "Systems (cfg (New noopConfig quiet)) ''1'' = Some NewNoop \<and> CurrentState NewNoop = None \<and>
   StatusCode (fst (handleSystem (resetRequest ''1'' ''On'') (New noopConfig quiet))) = 200 \<and>
   PowerStateOf (fst (handleSystem (getRequest ''/redfish/v1/Systems/1'')
      (snd (handleSystem (resetRequest ''1'' ''On'') (New noopConfig quiet))))) = Some ''On'' \<and>
   PowerStateOf (fst (handleSystem (getRequest ''/redfish/v1/Systems/1'')
      (snd (handleSystem (resetRequest ''1'' ''ForceOff'')
         (snd (handleSystem (resetRequest ''1'' ''On'') (New noopConfig quiet))))))) = Some ''Off''"
proof -
  let ?s0 = "New noopConfig quiet"
  let ?s1 = "snd (handleSystem (resetRequest ''1'' ''On'') ?s0)"
  let ?s2 = "snd (handleSystem (resetRequest ''1'' ''ForceOff'') ?s1)"
  let ?g = "getRequest ''/redfish/v1/Systems/1''"
  have s1: "?s1 = \<lparr>cfg = noopConfig, last = [''1'' \<mapsto> True], boot = Map.empty,
                  world = record_action (Log ''noop backend: PowerOn'') quiet,
                  events = [Invoke ''1'' CallPowerOn]\<rparr>"
    by (simp add: resetRequest_def noopConfig_def New_def NewNoop_def path_simps handler_simps)
  have ok1: "StatusCode (fst (handleSystem (resetRequest ''1'' ''On'') ?s0)) = 200"
    by (simp add: resetRequest_def noopConfig_def New_def NewNoop_def path_simps handler_simps)
  have ok2: "StatusCode (fst (handleSystem (resetRequest ''1'' ''ForceOff'') ?s1)) = 200"
    unfolding s1
    by (simp add: resetRequest_def noopConfig_def NewNoop_def path_simps handler_simps)
  have reg: "Systems (cfg ?s0) ''1'' = Some NewNoop" "Systems (cfg ?s1) ''1'' = Some NewNoop"
    unfolding s1 by (simp_all add: noopConfig_def New_def)
  have none: "CurrentState NewNoop = None"
    by (simp add: NewNoop_def)
  have on: "PowerStateOf (fst (handleSystem ?g ?s1)) = Some ''On''"
    using cached_state_follows_reset
      [of "''1/Actions/ComputerSystem.Reset''" "resetRequest ''1'' ''On''" "''1''" "''On''"
          "''1''" ?g ?s0 NewNoop "fst (handleSystem (resetRequest ''1'' ''On'') ?s0)" ?s1]
      reg(1) none ok1
    by (simp add: resetRequest_def getRequest_def path_simps)
  have off: "PowerStateOf (fst (handleSystem ?g ?s2)) = Some ''Off''"
    using cached_state_follows_reset
      [of "''1/Actions/ComputerSystem.Reset''" "resetRequest ''1'' ''ForceOff''" "''1''" "''ForceOff''"
          "''1''" ?g ?s1 NewNoop "fst (handleSystem (resetRequest ''1'' ''ForceOff'') ?s1)" ?s2]
      reg(2) none ok2
    by (simp add: resetRequest_def getRequest_def path_simps)
  show ?thesis
    by (intro conjI) (fact reg(1) none ok1 on off)+
qed

section \<open>Restart is all or nothing\<close>

text \<open>
  C2. A restart request (\<open>ForceRestart\<close> or \<open>GracefulRestart\<close>) for a registered system
  invokes \<^verbatim>\<open>PowerOff\<close>, waits, and invokes \<^verbatim>\<open>PowerOn\<close>. If both return no error the
  answer is 200 and the cache holds \<open>True\<close> for the system; if either returns an error
  the answer is 400 and the cache is the one from before the request, so the cache is
  written only when the whole sequence has succeeded.
\<close>

theorem restart_all_or_nothing:
  assumes "path = TrimPrefix (Path r) ''/redfish/v1/Systems/''"
    and "HasSuffix path ''/Actions/ComputerSystem.Reset''"
    and "Method r = ''POST''"
    and "TrimSuffix (TrimSuffix path ''/Actions/ComputerSystem.Reset'') ''/'' = sid"
    and "Systems (cfg s) sid = Some be"
    and "Decode r = Inr t"
    and "t = ''ForceRestart'' \<or> t = ''GracefulRestart''"
    and "PowerOff be (world s) = (e1, w1)"
    and "PowerOn be w1 = (e2, w2)"
    and "handleSystem r s = (resp, s')"
  shows "(e1 = None \<and> e2 = None \<longrightarrow>
            StatusCode resp = 200 \<and> last s' = (last s)(sid \<mapsto> True) \<and> lastOf s' sid \<and>
            events s' = events s @ [Invoke sid CallPowerOff, Sleep 2, Invoke sid CallPowerOn]) \<and>
         (e1 \<noteq> None \<or> e2 \<noteq> None \<longrightarrow> StatusCode resp = 400 \<and> last s' = last s) \<and>
         (last s' \<noteq> last s \<longrightarrow> e1 = None \<and> e2 = None)"
proof -
  have h: "handleSystem r s =
           (case applyReset sid be t s of
              (Some err, s1) \<Rightarrow> (httpError [] err 400, s1)
            | (None, s1) \<Rightarrow> (writeJSON 200 (JObject [(''status'', JString ''ok'')]), s1))"
    using handleSystem_reset [OF assms(1-6)] .
  note ar = applyReset_restart_result [OF assms(7-9), of sid]
  show ?thesis
  proof (cases e1)
    case (Some err)
    then show ?thesis
      using h ar assms(10) by (auto simp: status_httpError)
  next
    case None
    note e1 = this
    show ?thesis
    proof (cases e2)
      case (Some err)
      then show ?thesis
        using h ar e1 assms(10) by (auto simp: status_httpError)
    next
      case None
      then show ?thesis
        using h ar e1 assms(10) by (auto simp: status_writeJSON lastOf_def)
    qed
  qed
qed

theorem restart_all_or_nothing_witness:
  "lastOf (snd (handleSystem (resetRequest ''1'' ''ForceRestart'') (New noopConfig quiet))) ''1'' \<and>
   StatusCode (fst (handleSystem (resetRequest ''1'' ''ForceRestart'') (New noopConfig quiet))) = 200 \<and>
   StatusCode (fst (handleSystem (resetRequest ''1'' ''GracefulRestart'') (New commandConfig brokenShell))) = 400 \<and>
   last (snd (handleSystem (resetRequest ''1'' ''GracefulRestart'') (New commandConfig brokenShell))) = Map.empty"
  using restart_all_or_nothing
    [of "''1/Actions/ComputerSystem.Reset''" "resetRequest ''1'' ''ForceRestart''" "''1''"
        "New noopConfig quiet" NewNoop "''ForceRestart''"
        None "record_action (Log ''noop backend: PowerOff'') quiet"
        None "record_action (Log ''noop backend: PowerOn'') (record_action (Log ''noop backend: PowerOff'') quiet)"
        "fst (handleSystem (resetRequest ''1'' ''ForceRestart'') (New noopConfig quiet))"
        "snd (handleSystem (resetRequest ''1'' ''ForceRestart'') (New noopConfig quiet))"]
    restart_all_or_nothing
    [of "''1/Actions/ComputerSystem.Reset''" "resetRequest ''1'' ''GracefulRestart''" "''1''"
        "New commandConfig brokenShell" "commandBackend \<lparr>onCmd = ''poweron'', offCmd = ''poweroff''\<rparr>"
        "''GracefulRestart''"
        "Some ''exit status 1''" "record_action (Exec ''poweroff'') brokenShell"
        None "record_action (Exec ''poweron'') (record_action (Exec ''poweroff'') brokenShell)"
        "fst (handleSystem (resetRequest ''1'' ''GracefulRestart'') (New commandConfig brokenShell))"
        "snd (handleSystem (resetRequest ''1'' ''GracefulRestart'') (New commandConfig brokenShell))"]
  by (simp add: resetRequest_def noopConfig_def New_def NewNoop_def quiet_def record_action_def
        commandConfig_def brokenShell_def commandBackend_def run_def path_simps)

section \<open>Unsupported reset types\<close>

text \<open>
  C3. A reset request (a \<^verbatim>\<open>POST\<close> whose path ends in the reset suffix) for a registered
  system whose body decodes to a \<^verbatim>\<open>ResetType\<close> outside \<open>On\<close>, \<open>ForceOff\<close>,
  \<open>GracefulShutdown\<close>, \<open>Off\<close>, \<open>ForceRestart\<close>, \<open>GracefulRestart\<close> is answered by
  \<^verbatim>\<open>http.Error(w, "unsupported ResetType", 400)\<close>, and the server is exactly as before:
  no backend method was invoked (no event, the same world) and the cache is untouched.
\<close>

theorem unsupported_reset_rejected:
  assumes "path = TrimPrefix (Path r) ''/redfish/v1/Systems/''"
    and "HasSuffix path ''/Actions/ComputerSystem.Reset''"
    and "Method r = ''POST''"
    and "Systems (cfg s) (TrimSuffix (TrimSuffix path ''/Actions/ComputerSystem.Reset'') ''/'') = Some be"
    and "Decode r = Inr resetType"
    and "resetType \<notin> {''On'', ''ForceOff'', ''GracefulShutdown'', ''Off'', ''ForceRestart'',
                        ''GracefulRestart''}"
  shows "handleSystem r s = (httpError [] ''unsupported ResetType'' 400, s) \<and>
         StatusCode (fst (handleSystem r s)) = 400 \<and>
         events (snd (handleSystem r s)) = events s \<and>
         last (snd (handleSystem r s)) = last s"
proof -
  have ne: "path \<noteq> []"
    using assms(2) by (auto simp: HasSuffix_def)
  have "handleSystem r s = (httpError [] ''unsupported ResetType'' 400, s)"
    using assms ne applyReset_unsupported [OF assms(6), of _ be s]
    by (simp add: handleSystem_def Let_def)
  then show ?thesis
    by (simp add: httpError_def)
qed

theorem unsupported_reset_rejected_witness:
  "HasSuffix (TrimPrefix (Path (resetRequest ''1'' ''Nmi'')) ''/redfish/v1/Systems/'')
     ''/Actions/ComputerSystem.Reset'' \<and>
   Method (resetRequest ''1'' ''Nmi'') = ''POST'' \<and>
   Systems (cfg (New noopConfig quiet)) ''1'' = Some NewNoop \<and>
   ''Nmi'' \<notin> {''On'', ''ForceOff'', ''GracefulShutdown'', ''Off'', ''ForceRestart'',
               ''GracefulRestart''} \<and>
   handleSystem (resetRequest ''1'' ''Nmi'') (New noopConfig quiet) =
     (httpError [] ''unsupported ResetType'' 400, New noopConfig quiet) \<and>
   events (snd (handleSystem (resetRequest ''1'' ''Nmi'') (New noopConfig quiet))) = []"
  using unsupported_reset_rejected
    [of "''1/Actions/ComputerSystem.Reset''" "resetRequest ''1'' ''Nmi''" "New noopConfig quiet"
        NewNoop "''Nmi''"]
  by (simp add: resetRequest_def path_simps New_def noopConfig_def)

section \<open>The live state is authoritative\<close>

text \<open>
  C4. When the backend of the system has \<^verbatim>\<open>CurrentState\<close> and the query returns a value
  \<open>v\<close> without error, the \<^verbatim>\<open>GET\<close> reports \<open>On\<close> if \<open>v\<close> and \<open>Off\<close> otherwise,
  whatever the cache holds, and the cache stays as it is. The \<^verbatim>\<open>CurrentState\<close> of the
  remote-switch backend returns, for a fetched state string, whether it is one of
  \<open>on\<close>, \<open>On\<close>, \<open>oN\<close>, \<open>ON\<close>, provided the Unicode lowering \<open>U\<close> of the library
  turns no string outside ASCII into \<open>on\<close>.
\<close>

theorem live_state_is_authoritative:
  assumes "path = TrimPrefix (Path r) ''/redfish/v1/Systems/''"
    and "path \<noteq> []"
    and "\<not> HasSuffix path ''/Actions/ComputerSystem.Reset''"
    and "Method r = ''GET''"
    and "TrimSuffix path ''/'' = sid"
    and "Systems (cfg s) sid = Some be"
    and "CurrentState be = Some ps"
    and "ps (world s) = (Inr v, w1)"
    and "fetchState h w = (Inr (state, name), w2)"
    and "\<forall>x. \<not> isASCII x \<longrightarrow> U x \<noteq> ''on''"
  shows "PowerStateOf (fst (handleSystem r s)) = Some (if v then ''On'' else ''Off'') \<and>
         last (snd (handleSystem r s)) = last s \<and>
         HA_CurrentState U h w = (Inr (state \<in> {''on'', ''On'', ''oN'', ''ON''}), w2)"
proof -
  let ?s1 = "s\<lparr>world := w1, events := events s @ [Invoke sid CallCurrentState]\<rparr>"
  obtain n s2 where rn: "readName sid be ?s1 = (n, s2)"
    by (cases "readName sid be ?s1")
  have h: "handleSystem r s = (writeJSON 200 (systemDocument sid n v (bootOf s2 sid)), s2)"
    using handleSystem_get [OF assms(1-6)] readState_live [OF assms(7,8), of sid] rn by simp
  have "last s2 = last s"
    using readName_frame [OF rn] by simp
  moreover have "HA_CurrentState U h w = (Inr (state \<in> {''on'', ''On'', ''oN'', ''ON''}), w2)"
    using assms(9) ToLower_on [OF assms(10), of state] by (simp add: HA_CurrentState_def)
  ultimately show ?thesis
    by (simp add: h PowerStateOf_document)
qed

theorem live_state_is_authoritative_witness:
  "lastOf (New switchConfig switchOn) ''1'' = False \<and>
   PowerStateOf (fst (handleSystem (getRequest ''/redfish/v1/Systems/1'') (New switchConfig switchOn)))
     = Some ''On'' \<and>
   fst (HA_CurrentState (\<lambda>x. x) switch switchOn) = Inr True"
proof -
  let ?req = "\<lparr>ReqMethod = ''GET'', URL = ''http://ha.local:8123/api/states/switch.pc'',
               Authorization = ''Bearer secret'', Payload = None\<rparr>"
  have U: "\<forall>x. \<not> isASCII x \<longrightarrow> (\<lambda>x. x) x \<noteq> ''on''"
    by (auto simp: isASCII_def)
  have f: "fetchState switch switchOn = (Inr (''ON'', []), record_action (Http ?req) switchOn)"
    by (simp add: fetchState_def do_request_def switch_def switchOn_def record_action_def)
  have c: "HA_CurrentState (\<lambda>x. x) switch (world (New switchConfig switchOn)) =
             (Inr True, record_action (Http ?req) switchOn)"
    using f ToLower_on [OF U, of "''ON''"] by (simp add: HA_CurrentState_def New_def)
  show ?thesis
    using live_state_is_authoritative
      [of "''1''" "getRequest ''/redfish/v1/Systems/1''" "''1''" "New switchConfig switchOn"
          "HomeAssistantBackend (\<lambda>x. x) switch" "HA_CurrentState (\<lambda>x. x) switch" True
          "record_action (Http ?req) switchOn" switch switchOn "''ON''" "[]"
          "record_action (Http ?req) switchOn" "\<lambda>x. x", OF _ _ _ _ _ _ _ c f U]
    by (simp add: getRequest_def path_simps New_def switchConfig_def HomeAssistantBackend_def
          lastOf_def)
qed

section \<open>Readiness\<close>

text \<open>
  C5. With \<open>keys\<close> the order in which the registry is ranged over: an empty registry is
  answered 200; a registered backend that has no health check, or whose health check
  always succeeds, makes the answer 200; the answer is 200 or 503; it is 503 exactly when
  the registry is not empty, every registered backend has a health check, and every
  health check of the round fails. The health check of the shell-command backend returns
  no error.
\<close>

theorem readiness:
  assumes "enumerates keys s"
  shows "(dom (Systems (cfg s)) = {} \<longrightarrow>
            handleReadyz keys r s = (\<lparr>StatusCode = 200, Header = [], Body = Text ''ok''\<rparr>, s)) \<and>
         (\<forall>sid be. Systems (cfg s) sid = Some be \<and>
              (Ping be = None \<or> (\<exists>hc. Ping be = Some hc \<and> (\<forall>w. fst (hc w) = None))) \<longrightarrow>
            StatusCode (fst (handleReadyz keys r s)) = 200) \<and>
         (StatusCode (fst (handleReadyz keys r s)) = 200 \<or>
          StatusCode (fst (handleReadyz keys r s)) = 503) \<and>
         (StatusCode (fst (handleReadyz keys r s)) = 503 \<longleftrightarrow>
            dom (Systems (cfg s)) \<noteq> {} \<and>
            (\<forall>sid be. Systems (cfg s) sid = Some be \<longrightarrow> Ping be \<noteq> None) \<and>
            (\<forall>e\<in>set (fst (pingAll keys s)). e \<noteq> None)) \<and>
         Ping (commandBackend c) = Some (\<lambda>w. (None, w))"
proof -
  have keys: "set keys = dom (Systems (cfg s))"
    using assms by (simp add: enumerates_def)
  have reg: "\<forall>k\<in>set keys. Systems (cfg s) k \<noteq> None"
    using keys by auto
  have empty: "dom (Systems (cfg s)) = {} \<longleftrightarrow> keys = []"
    unfolding keys [symmetric] by simp
  have c1: "dom (Systems (cfg s)) = {} \<longrightarrow>
            handleReadyz keys r s = (\<lparr>StatusCode = 200, Header = [], Body = Text ''ok''\<rparr>, s)"
    using empty by (simp add: handleReadyz_def)
  have c2: "StatusCode (fst (handleReadyz keys r s)) = 200"
    if "Systems (cfg s) sid = Some be"
      and "Ping be = None \<or> (\<exists>hc. Ping be = Some hc \<and> (\<forall>w. fst (hc w) = None))"
    for sid be
  proof -
    have "sid \<in> set keys" using that(1) keys by auto
    then have "fst (pingLoop keys s)" using that by (rule pingLoop_healthy)
    then show ?thesis by (simp add: handleReadyz_status)
  qed
  have c3: "StatusCode (fst (handleReadyz keys r s)) = 200 \<or>
            StatusCode (fst (handleReadyz keys r s)) = 503"
    by (simp add: handleReadyz_status)
  have sup: "\<forall>sid be. Systems (cfg s) sid = Some be \<longrightarrow> Ping be \<noteq> None"
    if "\<forall>e\<in>set (fst (pingAll keys s)). e \<noteq> None"
  proof (intro allI impI)
    fix sid be assume be: "Systems (cfg s) sid = Some be"
    then have "sid \<in> set keys" using keys by auto
    then show "Ping be \<noteq> None" using that be pingAll_supported by blast
  qed
  have c4: "StatusCode (fst (handleReadyz keys r s)) = 503 \<longleftrightarrow>
            dom (Systems (cfg s)) \<noteq> {} \<and>
            (\<forall>sid be. Systems (cfg s) sid = Some be \<longrightarrow> Ping be \<noteq> None) \<and>
            (\<forall>e\<in>set (fst (pingAll keys s)). e \<noteq> None)"
    using pingLoop_all_fail [OF reg] sup empty by (auto simp: handleReadyz_status)
  have c5: "Ping (commandBackend c) = Some (\<lambda>w. (None, w))"
    by (simp add: commandBackend_def)
  show ?thesis
    using c1 c2 c3 c4 c5 by blast
qed

theorem readiness_witness:
  "enumerates [''1''] (New commandConfig brokenShell) \<and>
   StatusCode (fst (handleReadyz [''1''] (getRequest ''/readyz'') (New commandConfig brokenShell))) = 200 \<and>
   enumerates [''1''] (New downConfig quiet) \<and>
   StatusCode (fst (handleReadyz [''1''] (getRequest ''/readyz'') (New downConfig quiet))) = 503 \<and>
   enumerates [] (New \<lparr>Listen = [], Username = [], Password = [], Systems = Map.empty\<rparr> quiet) \<and>
   StatusCode (fst (handleReadyz [] (getRequest ''/readyz'')
      (New \<lparr>Listen = [], Username = [], Password = [], Systems = Map.empty\<rparr> quiet))) = 200"
proof -
  let ?c = "\<lparr>onCmd = ''poweron'', offCmd = ''poweroff''\<rparr>"
  have e1: "enumerates [''1''] (New commandConfig brokenShell)"
    by (simp add: enumerates_def New_def commandConfig_def)
  have e2: "enumerates [''1''] (New downConfig quiet)"
    by (simp add: enumerates_def New_def downConfig_def)
  have e3: "enumerates [] (New \<lparr>Listen = [], Username = [], Password = [], Systems = Map.empty\<rparr> quiet)"
    by (simp add: enumerates_def New_def)
  have up: "StatusCode (fst (handleReadyz [''1''] (getRequest ''/readyz'') (New commandConfig brokenShell))) = 200"
    using readiness [OF e1, of "getRequest ''/readyz''" ?c]
    by (simp add: New_def commandConfig_def)
  have down: "StatusCode (fst (handleReadyz [''1''] (getRequest ''/readyz'') (New downConfig quiet))) = 503"
    using readiness [OF e2, of "getRequest ''/readyz''" ?c]
    by (simp add: New_def downConfig_def downBackend_def invoke_eq)
  have none: "StatusCode (fst (handleReadyz [] (getRequest ''/readyz'')
      (New \<lparr>Listen = [], Username = [], Password = [], Systems = Map.empty\<rparr> quiet))) = 200"
    using readiness [OF e3, of "getRequest ''/readyz''" ?c]
    by (simp add: New_def)
  show ?thesis
    using e1 e2 e3 up down none by simp
qed

section \<open>The gate\<close>

text \<open>
  C6. With a credential pair configured (user name and password not both empty), a
  request whose path is none of \<^verbatim>\<open>/redfish/v1/\<close>, \<^verbatim>\<open>/redfish/v1\<close>, \<^verbatim>\<open>/livez\<close>,
  \<^verbatim>\<open>/readyz\<close> and whose Basic credentials are absent or differ from the configured pair
  is answered 401 with the \<^verbatim>\<open>WWW-Authenticate\<close> header; the answer and the server state
  are the same whatever the wrapped handler is, so it was not run. A request to one of
  the four paths, any request when no credentials are configured, and a request
  presenting the configured pair are answered by the wrapped handler.
\<close>

theorem auth_gate:
  "(Path r \<notin> {''/redfish/v1/'', ''/redfish/v1'', ''/livez'', ''/readyz''} \<and>
    \<not> (Username (cfg s) = [] \<and> Password (cfg s) = []) \<and>
    BasicAuth r \<noteq> Some (Username (cfg s), Password (cfg s)) \<longrightarrow>
      authMiddleware next r s =
        (httpError [(''WWW-Authenticate'', ''Basic realm=redfish'')] ''unauthorized'' 401, s) \<and>
      StatusCode (fst (authMiddleware next r s)) = 401 \<and>
      map_of (Header (fst (authMiddleware next r s))) ''WWW-Authenticate'' = Some ''Basic realm=redfish'' \<and>
      (\<forall>other. authMiddleware other r s = authMiddleware next r s)) \<and>
   (Path r \<in> {''/redfish/v1/'', ''/redfish/v1'', ''/livez'', ''/readyz''} \<or>
    (Username (cfg s) = [] \<and> Password (cfg s) = []) \<or>
    BasicAuth r = Some (Username (cfg s), Password (cfg s)) \<longrightarrow>
      authMiddleware next r s = next r s)"
proof -
  let ?deny = "(httpError [(''WWW-Authenticate'', ''Basic realm=redfish'')] ''unauthorized'' 401, s)"
  have deny: "authMiddleware h r s = ?deny"
    if "Path r \<notin> {''/redfish/v1/'', ''/redfish/v1'', ''/livez'', ''/readyz''}"
      and "\<not> (Username (cfg s) = [] \<and> Password (cfg s) = [])"
      and "BasicAuth r \<noteq> Some (Username (cfg s), Password (cfg s))"
    for h :: "'a handler"
    using that by (auto simp: authMiddleware_def HeaderSet_def split: option.splits)
  have hdr: "map_of (Header (fst ?deny)) ''WWW-Authenticate'' = Some ''Basic realm=redfish''"
    by (simp add: httpError_def HeaderSet_def)
  have pass: "authMiddleware next r s = next r s"
    if "Path r \<in> {''/redfish/v1/'', ''/redfish/v1'', ''/livez'', ''/readyz''} \<or>
        (Username (cfg s) = [] \<and> Password (cfg s) = []) \<or>
        BasicAuth r = Some (Username (cfg s), Password (cfg s))"
    using that by (auto simp: authMiddleware_def)
  show ?thesis
    using deny hdr pass by (simp add: status_httpError)
qed

theorem auth_gate_witness:
  "\<not> (Username (cfg (New securedConfig quiet)) = [] \<and> Password (cfg (New securedConfig quiet)) = []) \<and>
   StatusCode (fst (authMiddleware (mux [''1'']) (getRequest ''/redfish/v1/Systems/1'')
      (New securedConfig quiet))) = 401 \<and>
   authMiddleware (mux [''1'']) (getRequest ''/livez'') (New securedConfig quiet) =
     mux [''1''] (getRequest ''/livez'') (New securedConfig quiet) \<and>
   authMiddleware (mux [''1'']) (getRequest ''/redfish/v1/Systems/1'') (New noopConfig quiet) =
     mux [''1''] (getRequest ''/redfish/v1/Systems/1'') (New noopConfig quiet)"
  using auth_gate [of "getRequest ''/redfish/v1/Systems/1''" "New securedConfig quiet" "mux [''1'']"]
    auth_gate [of "getRequest ''/livez''" "New securedConfig quiet" "mux [''1'']"]
    auth_gate [of "getRequest ''/redfish/v1/Systems/1''" "New noopConfig quiet" "mux [''1'']"]
  by (simp add: getRequest_def New_def securedConfig_def noopConfig_def status_httpError)

section \<open>Unknown systems\<close>

text \<open>
  C7, as stated, fails: with the empty string registered as an id, the reset request whose
  path is the Systems prefix followed by the reset suffix leaves an empty id and is
  answered 200, and so is the \<^verbatim>\<open>GET\<close> of the prefix followed by one more slash.
\<close>

theorem empty_id_found_counterexample:
  "TrimSuffix (TrimSuffix (TrimPrefix (Path (resetRequest [] ''On'')) ''/redfish/v1/Systems/'')
      ''/Actions/ComputerSystem.Reset'') ''/'' = [] \<and>
   StatusCode (fst (handleSystem (resetRequest [] ''On'') (New emptyIdConfig quiet))) = 200 \<and>
   TrimSuffix (TrimPrefix (Path (getRequest ''/redfish/v1/Systems//'')) ''/redfish/v1/Systems/'') ''/'' = [] \<and>
   StatusCode (fst (handleSystem (getRequest ''/redfish/v1/Systems//'') (New emptyIdConfig quiet))) = 200"
  by (simp add: resetRequest_def getRequest_def emptyIdConfig_def New_def NewNoop_def quiet_def
        record_action_def path_simps handler_simps)

text \<open>
  C7, amended. A path that is empty after the Systems prefix is answered 404 whatever the
  method. Otherwise the id is what remains after the reset suffix, if any, and one final
  slash: a \<^verbatim>\<open>GET\<close> of a system and a \<^verbatim>\<open>POST\<close> of the reset action are answered 404,
  with the server unchanged, when that id is not registered, and with another status when
  it is. The empty id is treated like any other: a \<^verbatim>\<open>POST\<close> whose path leaves the empty
  id after the reset suffix, and a \<^verbatim>\<open>GET\<close> whose path leaves it after the final slash,
  are answered 404 exactly when the empty string is not registered.
\<close>

theorem unknown_system_not_found:
  assumes "path = TrimPrefix (Path r) ''/redfish/v1/Systems/''"
  shows "(path = [] \<longrightarrow> handleSystem r s = (NotFound, s)) \<and>
         (path \<noteq> [] \<and> \<not> HasSuffix path ''/Actions/ComputerSystem.Reset'' \<and> Method r = ''GET'' \<and>
          Systems (cfg s) (TrimSuffix path ''/'') = None \<longrightarrow> handleSystem r s = (NotFound, s)) \<and>
         (HasSuffix path ''/Actions/ComputerSystem.Reset'' \<and> Method r = ''POST'' \<and>
          Systems (cfg s) (TrimSuffix (TrimSuffix path ''/Actions/ComputerSystem.Reset'') ''/'') = None \<longrightarrow>
            handleSystem r s = (NotFound, s)) \<and>
         (path \<noteq> [] \<and> \<not> HasSuffix path ''/Actions/ComputerSystem.Reset'' \<and> Method r = ''GET'' \<longrightarrow>
            (StatusCode (fst (handleSystem r s)) = 404 \<longleftrightarrow>
               Systems (cfg s) (TrimSuffix path ''/'') = None)) \<and>
         (HasSuffix path ''/Actions/ComputerSystem.Reset'' \<and> Method r = ''POST'' \<longrightarrow>
            (StatusCode (fst (handleSystem r s)) = 404 \<longleftrightarrow>
               Systems (cfg s) (TrimSuffix (TrimSuffix path ''/Actions/ComputerSystem.Reset'') ''/'') = None)) \<and>
         (path \<noteq> [] \<and> \<not> HasSuffix path ''/Actions/ComputerSystem.Reset'' \<and> Method r = ''GET'' \<and>
          TrimSuffix path ''/'' = [] \<longrightarrow>
            (StatusCode (fst (handleSystem r s)) = 404 \<longleftrightarrow> Systems (cfg s) [] = None)) \<and>
         (HasSuffix path ''/Actions/ComputerSystem.Reset'' \<and> Method r = ''POST'' \<and>
          TrimSuffix (TrimSuffix path ''/Actions/ComputerSystem.Reset'') ''/'' = [] \<longrightarrow>
            (StatusCode (fst (handleSystem r s)) = 404 \<longleftrightarrow> Systems (cfg s) [] = None)) \<and>
         (path = ''/Actions/ComputerSystem.Reset'' \<and> Method r = ''POST'' \<longrightarrow>
            (StatusCode (fst (handleSystem r s)) = 404 \<longleftrightarrow> Systems (cfg s) [] = None)) \<and>
         (path = ''/'' \<and> Method r = ''GET'' \<longrightarrow>
            (StatusCode (fst (handleSystem r s)) = 404 \<longleftrightarrow> Systems (cfg s) [] = None)) \<and>
         StatusCode NotFound = 404"
proof -
  let ?suffix = "''/Actions/ComputerSystem.Reset''"
  let ?gid = "TrimSuffix path ''/''"
  let ?pid = "TrimSuffix (TrimSuffix path ?suffix) ''/''"
  have c1: "path = [] \<longrightarrow> handleSystem r s = (NotFound, s)"
    using assms by (simp add: handleSystem_def)
  have g_none: "handleSystem r s = (NotFound, s)"
    if "path \<noteq> []" "\<not> HasSuffix path ?suffix" "Method r = ''GET''" "Systems (cfg s) ?gid = None"
    using that assms by (simp add: handleSystem_def Let_def)
  have p_none: "handleSystem r s = (NotFound, s)"
    if suf: "HasSuffix path ?suffix" and m: "Method r = ''POST''" and n: "Systems (cfg s) ?pid = None"
  proof -
    have "path \<noteq> []" using suf by (auto simp: HasSuffix_def)
    then show ?thesis using suf m n assms by (simp add: handleSystem_def Let_def)
  qed
  have g_iff: "StatusCode (fst (handleSystem r s)) = 404 \<longleftrightarrow> Systems (cfg s) ?gid = None"
    if ne: "path \<noteq> []" and nosuf: "\<not> HasSuffix path ?suffix" and m: "Method r = ''GET''"
  proof (cases "Systems (cfg s) ?gid")
    case None
    then show ?thesis
      using g_none [OF ne nosuf m] by (simp add: status_NotFound)
  next
    case (Some be)
    have "StatusCode (fst (handleSystem r s)) = 200"
      using assms ne nosuf m Some by (rule handleSystem_get_status)
    then show ?thesis
      using Some by simp
  qed
  have p_iff: "StatusCode (fst (handleSystem r s)) = 404 \<longleftrightarrow> Systems (cfg s) ?pid = None"
    if suf: "HasSuffix path ?suffix" and m: "Method r = ''POST''"
  proof (cases "Systems (cfg s) ?pid")
    case None
    then show ?thesis
      using p_none [OF suf m] by (simp add: status_NotFound)
  next
    case (Some be)
    have "StatusCode (fst (handleSystem r s)) = 400 \<or> StatusCode (fst (handleSystem r s)) = 200"
      using assms suf m Some by (rule handleSystem_reset_status)
    then show ?thesis
      using Some by auto
  qed
  have g_empty: "StatusCode (fst (handleSystem r s)) = 404 \<longleftrightarrow> Systems (cfg s) [] = None"
    if "path \<noteq> []" "\<not> HasSuffix path ?suffix" "Method r = ''GET''" "?gid = []"
    using g_iff [OF that(1-3)] that(4) by simp
  have p_empty: "StatusCode (fst (handleSystem r s)) = 404 \<longleftrightarrow> Systems (cfg s) [] = None"
    if "HasSuffix path ?suffix" "Method r = ''POST''" "?pid = []"
    using p_iff [OF that(1,2)] that(3) by simp
  have p_exact: "StatusCode (fst (handleSystem r s)) = 404 \<longleftrightarrow> Systems (cfg s) [] = None"
    if p: "path = ?suffix" and m: "Method r = ''POST''"
  proof -
    have a: "HasSuffix path ?suffix" and b: "?pid = []"
      using p by (simp_all add: path_simps)
    show ?thesis using a m b by (rule p_empty)
  qed
  have g_exact: "StatusCode (fst (handleSystem r s)) = 404 \<longleftrightarrow> Systems (cfg s) [] = None"
    if p: "path = ''/''" and m: "Method r = ''GET''"
  proof -
    have a: "path \<noteq> []" and b: "\<not> HasSuffix path ?suffix" and c: "?gid = []"
      using p by (simp_all add: path_simps)
    show ?thesis using a b m c by (rule g_empty)
  qed
  show ?thesis
    using c1 g_none p_none g_iff p_iff g_empty p_empty p_exact g_exact status_NotFound
    by (intro conjI impI; (elim conjE)?) (assumption | blast)+
qed

theorem unknown_system_not_found_witness:
  "Systems (cfg (New noopConfig quiet)) ''2'' = None \<and>
   Systems (cfg (New noopConfig quiet)) [] = None \<and>
   Systems (cfg (New emptyIdConfig quiet)) [] \<noteq> None \<and>
   StatusCode (fst (handleSystem (getRequest ''/redfish/v1/Systems/2'') (New noopConfig quiet))) = 404 \<and>
   StatusCode (fst (handleSystem (resetRequest ''2'' ''On'') (New noopConfig quiet))) = 404 \<and>
   StatusCode (fst (handleSystem (getRequest ''/redfish/v1/Systems/'') (New noopConfig quiet))) = 404 \<and>
   StatusCode (fst (handleSystem (resetRequest [] ''On'') (New noopConfig quiet))) = 404 \<and>
   StatusCode (fst (handleSystem (getRequest ''/redfish/v1/Systems//'') (New noopConfig quiet))) = 404 \<and>
   StatusCode (fst (handleSystem (resetRequest [] ''On'') (New emptyIdConfig quiet))) \<noteq> 404 \<and>
   StatusCode (fst (handleSystem (getRequest ''/redfish/v1/Systems//'') (New emptyIdConfig quiet))) \<noteq> 404"
  using unknown_system_not_found
      [of "''2''" "getRequest ''/redfish/v1/Systems/2''" "New noopConfig quiet"]
    unknown_system_not_found
      [of "''2/Actions/ComputerSystem.Reset''" "resetRequest ''2'' ''On''" "New noopConfig quiet"]
    unknown_system_not_found
      [of "[]" "getRequest ''/redfish/v1/Systems/''" "New noopConfig quiet"]
    unknown_system_not_found
      [of "''/Actions/ComputerSystem.Reset''" "resetRequest [] ''On''" "New noopConfig quiet"]
    unknown_system_not_found
      [of "''/''" "getRequest ''/redfish/v1/Systems//''" "New noopConfig quiet"]
    unknown_system_not_found
      [of "''/Actions/ComputerSystem.Reset''" "resetRequest [] ''On''" "New emptyIdConfig quiet"]
    unknown_system_not_found
      [of "''/''" "getRequest ''/redfish/v1/Systems//''" "New emptyIdConfig quiet"]
  by (simp add: getRequest_def resetRequest_def New_def noopConfig_def emptyIdConfig_def path_simps)

section \<open>Reading a system changes nothing\<close>

text \<open>
  C8. A \<^verbatim>\<open>GET\<close> handled by \<^verbatim>\<open>handleSystem\<close> leaves the registry, the cache and the boot
  map as they were, for every path and every backend (so a value returned by a live query
  is not stored, whatever it is). When the request is answered with the document of a
  registered system whose boot entry has an empty target (an unset entry reads so), the
  document shows target \<open>None\<close> and enabled \<open>Disabled\<close>.
\<close>

theorem get_system_is_read_only:
  assumes "Method r = ''GET''"
    and "path = TrimPrefix (Path r) ''/redfish/v1/Systems/''"
  shows "cfg (snd (handleSystem r s)) = cfg s \<and>
         last (snd (handleSystem r s)) = last s \<and>
         boot (snd (handleSystem r s)) = boot s \<and>
         (path \<noteq> [] \<and> \<not> HasSuffix path ''/Actions/ComputerSystem.Reset'' \<and>
          Systems (cfg s) (TrimSuffix path ''/'') \<noteq> None \<and>
          BootSourceOverrideTarget (bootOf s (TrimSuffix path ''/'')) = [] \<longrightarrow>
            BootOf (fst (handleSystem r s)) = Some (Some (JString ''None''), Some (JString ''Disabled'')))"
proof (cases "path = [] \<or> HasSuffix path ''/Actions/ComputerSystem.Reset'' \<or>
         Systems (cfg s) (TrimSuffix path ''/'') = None")
  case True
  have "snd (handleSystem r s) = s"
    using assms True by (rule handleSystem_get_other)
  then show ?thesis
    using True by auto
next
  case False
  then obtain be where be: "Systems (cfg s) (TrimSuffix path ''/'') = Some be"
    and ne: "path \<noteq> []" and nosuf: "\<not> HasSuffix path ''/Actions/ComputerSystem.Reset''"
    by auto
  let ?sid = "TrimSuffix path ''/''"
  obtain on s1 where rs: "readState ?sid be s = (on, s1)"
    by (cases "readState ?sid be s")
  obtain name s2 where rn: "readName ?sid be s1 = (name, s2)"
    by (cases "readName ?sid be s1")
  have h: "handleSystem r s = (writeJSON 200 (systemDocument ?sid name on (bootOf s2 ?sid)), s2)"
    using handleSystem_get [OF assms(2) ne nosuf assms(1) refl be] rs rn by simp
  have f: "cfg s2 = cfg s \<and> last s2 = last s \<and> boot s2 = boot s"
    using readState_frame [OF rs] readName_frame [OF rn] by simp
  then have b: "bootOf s2 ?sid = bootOf s ?sid"
    by (simp add: bootOf_def)
  have "BootSourceOverrideTarget (bootOf s ?sid) = [] \<longrightarrow>
        BootOf (fst (handleSystem r s)) = Some (Some (JString ''None''), Some (JString ''Disabled''))"
    by (simp only: h fst_conv BootOf_document b) simp
  then show ?thesis
    using f by (simp only: h snd_conv) simp
qed

text \<open>
  The remote switch reports \<^verbatim>\<open>ON\<close> while the cache holds nothing: the answer carries the
  default boot configuration, and both maps are still empty.
\<close>

theorem get_system_is_read_only_witness:
  "Method (getRequest ''/redfish/v1/Systems/1'') = ''GET'' \<and>
   Systems (cfg (New switchConfig switchOn)) ''1'' \<noteq> None \<and>
   BootOf (fst (handleSystem (getRequest ''/redfish/v1/Systems/1'') (New switchConfig switchOn)))
     = Some (Some (JString ''None''), Some (JString ''Disabled'')) \<and>
   last (snd (handleSystem (getRequest ''/redfish/v1/Systems/1'') (New switchConfig switchOn))) = Map.empty \<and>
   boot (snd (handleSystem (getRequest ''/redfish/v1/Systems/1'') (New switchConfig switchOn))) = Map.empty"
  using get_system_is_read_only
      [of "getRequest ''/redfish/v1/Systems/1''" "''1''" "New switchConfig switchOn"]
  by (simp add: getRequest_def path_simps New_def switchConfig_def bootOf_def)

section \<open>The boot configuration never changes\<close>

text \<open>
  C9. No request changes the boot map: serving any request leaves it as it was, so after
  any sequence of requests served by the server that \<^verbatim>\<open>New\<close> builds the map is still
  empty, and every \<^verbatim>\<open>GET\<close> of a system that is answered 200 then, by \<^verbatim>\<open>handleSystem\<close> itself
  or through the gate and the multiplexer, shows \<open>BootSourceOverrideTarget\<close> \<open>None\<close> and
  \<open>BootSourceOverrideEnabled\<close> \<open>Disabled\<close>.
\<close>

theorem boot_configuration_never_changes:
  "boot (snd (ServeHTTP keys r s)) = boot s \<and>
   boot (serveAll rs (New c w)) = Map.empty \<and>
   (\<forall>g. Method g = ''GET'' \<and> StatusCode (fst (handleSystem g (serveAll rs (New c w)))) = 200 \<longrightarrow>
        BootOf (fst (handleSystem g (serveAll rs (New c w)))) =
          Some (Some (JString ''None''), Some (JString ''Disabled''))) \<and>
   (\<forall>ks g. HasPrefix (Path g) ''/redfish/v1/Systems/'' \<and> Method g = ''GET'' \<and>
        StatusCode (fst (ServeHTTP ks g (serveAll rs (New c w)))) = 200 \<longrightarrow>
        BootOf (fst (ServeHTTP ks g (serveAll rs (New c w)))) =
          Some (Some (JString ''None''), Some (JString ''Disabled'')))"
proof -
  let ?s = "serveAll rs (New c w)"
  have empty: "boot ?s = Map.empty"
    using serveAll_frame [of rs "New c w"] by (simp add: New_def)
  have doc: "BootOf (fst (handleSystem g ?s)) = Some (Some (JString ''None''), Some (JString ''Disabled''))"
    if m: "Method g = ''GET''" and ok: "StatusCode (fst (handleSystem g ?s)) = 200" for g
  proof -
    obtain sid name on s2 where b: "boot s2 = boot ?s"
      and h: "handleSystem g ?s = (writeJSON 200 (systemDocument sid name on (bootOf s2 sid)), s2)"
      using handleSystem_document [OF m ok] by blast
    have "BootSourceOverrideTarget (bootOf s2 sid) = []"
      using b empty by (simp add: bootOf_def)
    then show ?thesis
      by (simp add: h BootOf_document)
  qed
  have served: "BootOf (fst (ServeHTTP ks g ?s)) = Some (Some (JString ''None''), Some (JString ''Disabled''))"
    if "HasPrefix (Path g) ''/redfish/v1/Systems/''" and "Method g = ''GET''"
      and "StatusCode (fst (ServeHTTP ks g ?s)) = 200" for ks g
  proof -
    have "ServeHTTP ks g ?s = handleSystem g ?s"
      using ServeHTTP_system [OF that(1), of ks ?s] that(3) by auto
    then show ?thesis
      using doc [OF that(2)] that(3) by simp
  qed
  show ?thesis
    using ServeHTTP_frame [of keys r s] empty doc served by blast
qed

theorem boot_configuration_never_changes_witness:
  "Method (getRequest ''/redfish/v1/Systems/1'') = ''GET'' \<and>
   HasPrefix (Path (getRequest ''/redfish/v1/Systems/1'')) ''/redfish/v1/Systems/'' \<and>
   StatusCode (fst (ServeHTTP [''1''] (getRequest ''/redfish/v1/Systems/1'')
     (serveAll [([''1''], resetRequest ''1'' ''On'')] (New noopConfig quiet)))) = 200 \<and>
   BootOf (fst (ServeHTTP [''1''] (getRequest ''/redfish/v1/Systems/1'')
     (serveAll [([''1''], resetRequest ''1'' ''On'')] (New noopConfig quiet)))) =
     Some (Some (JString ''None''), Some (JString ''Disabled''))"
proof -
  let ?s = "serveAll [([''1''], resetRequest ''1'' ''On'')] (New noopConfig quiet)"
  let ?g = "getRequest ''/redfish/v1/Systems/1''"
  have s: "?s = \<lparr>cfg = noopConfig, last = [''1'' \<mapsto> True], boot = Map.empty,
                 world = record_action (Log ''noop backend: PowerOn'') quiet,
                 events = [Invoke ''1'' CallPowerOn]\<rparr>"
    by (simp add: ServeHTTP_def authMiddleware_def mux_def resetRequest_def noopConfig_def
          New_def NewNoop_def path_simps handler_simps)
  have ok: "StatusCode (fst (ServeHTTP [''1''] ?g ?s)) = 200"
    unfolding s
    by (simp add: ServeHTTP_def authMiddleware_def mux_def getRequest_def noopConfig_def
          NewNoop_def path_simps handler_simps)
  have p: "HasPrefix (Path ?g) ''/redfish/v1/Systems/''" and m: "Method ?g = ''GET''"
    by (simp_all add: getRequest_def HasPrefix_def)
  show ?thesis
    using boot_configuration_never_changes
      [of "[''1'']" ?g ?s "[([''1''], resetRequest ''1'' ''On'')]" noopConfig quiet] ok p m
    by blast
qed

section \<open>Accepted and advertised reset types\<close>



end
